theory Spec2Isabelle
  imports Main "HOL-Library.Multiset"
begin

section \<open>Python values used by app.py\<close>

text \<open>
  The exceptions that the request handler can meet. Every one of them is an
  \<open>Exception\<close>, so the handler's \<open>except Exception\<close> catches each.
\<close>

datatype py_error = ValueError | KeyError | OverflowError | TypeError

subsection \<open>Strings: strip, upper, substring test\<close>

text \<open>
  Strings are ASCII byte lists (the element names of a TLE file are ASCII).
  \<open>str.strip()\<close> removes the characters for which \<open>str.isspace\<close> holds; in
  ASCII these are tab, line feed, vertical tab, form feed, carriage return, the
  four separators 0x1C..0x1F and the space.
\<close>

definition is_space :: "char \<Rightarrow> bool" where
  "is_space c = (of_char c \<in> set [9, 10, 11, 12, 13, 28, 29, 30, 31, 32 :: nat])"

definition py_strip :: "string \<Rightarrow> string" where
  "py_strip s = rev (dropWhile is_space (rev (dropWhile is_space s)))"

definition upper_char :: "char \<Rightarrow> char" where
  "upper_char c =
     (let n = (of_char c :: nat) in if 97 \<le> n \<and> n \<le> 122 then char_of (n - 32) else c)"

definition py_upper :: "string \<Rightarrow> string" where
  "py_upper s = map upper_char s"

fun starts_with :: "string \<Rightarrow> string \<Rightarrow> bool" where
  "starts_with [] s = True"
| "starts_with (p # ps) [] = False"
| "starts_with (p # ps) (c # cs) = (p = c \<and> starts_with ps cs)"

text \<open>\<open>py_in needle hay\<close> is Python's \<open>needle in hay\<close> on strings.\<close>

fun py_in :: "string \<Rightarrow> string \<Rightarrow> bool" where
  "py_in needle [] = (needle = [])"
| "py_in needle (c # cs) = (starts_with needle (c # cs) \<or> py_in needle cs)"

text \<open>Lines 134-135 of \<open>home\<close>: the test that selects the satellites of interest.\<close>

definition interest_match :: "string \<Rightarrow> bool" where
  "interest_match satellite_name =
     (let satellite_name_normalized = py_upper (py_strip satellite_name)
      in py_in ''LANDSAT 8'' satellite_name_normalized
         \<or> py_in ''LANDSAT 9'' satellite_name_normalized)"

subsection \<open>datetime: the fields, formatting and parsing\<close>

text \<open>
  A Python \<open>datetime\<close> stores its calendar fields; \<open>tzinfo\<close> is \<open>None\<close> for a
  naive value. Skyfield's \<open>utc_datetime()\<close> returns aware values in UTC, and
  \<open>strptime\<close> and \<open>utcnow\<close> return naive ones.
\<close>

datatype tz = UTC

record datetime =
  year :: int
  month :: int
  day :: int
  hour :: int
  minute :: int
  second :: int
  microsecond :: int
  tzinfo :: "tz option"

definition is_leap :: "int \<Rightarrow> bool" where
  "is_leap y = (y mod 4 = 0 \<and> (y mod 100 \<noteq> 0 \<or> y mod 400 = 0))"

definition DAYS_IN_MONTH :: "int list" where
  "DAYS_IN_MONTH = [-1, 31, 28, 31, 30, 31, 30, 31, 31, 30, 31, 30, 31]"

definition DAYS_BEFORE_MONTH :: "int list" where
  "DAYS_BEFORE_MONTH = [-1, 0, 31, 59, 90, 120, 151, 181, 212, 243, 273, 304, 334]"

definition days_in_month :: "int \<Rightarrow> int \<Rightarrow> int" where
  "days_in_month y m = (if m = 2 \<and> is_leap y then 29 else DAYS_IN_MONTH ! nat m)"

definition days_before_year :: "int \<Rightarrow> int" where
  "days_before_year y =
     (let y1 = y - 1 in y1 * 365 + y1 div 4 - y1 div 100 + y1 div 400)"

definition days_before_month :: "int \<Rightarrow> int \<Rightarrow> int" where
  "days_before_month y m =
     DAYS_BEFORE_MONTH ! nat m + (if m > 2 \<and> is_leap y then 1 else 0)"

definition ymd2ord :: "int \<Rightarrow> int \<Rightarrow> int \<Rightarrow> int" where
  "ymd2ord y m d = days_before_year y + days_before_month y m + d"

definition MAXORDINAL :: int where
  "MAXORDINAL = 3652059"

text \<open>
  \<open>ord2ymd\<close> follows \<open>_ord2ymd\<close> of the standard library: 400-, 100-, 4- and
  1-year cycles, then the month and the day from the day \<open>n\<close> of the year.
  \<open>month_day\<close> is that last part: the estimate \<open>(n + 50) >> 5\<close> of the month and
  its correction when the estimate is one too large.
\<close>

definition month_day :: "bool \<Rightarrow> int \<Rightarrow> int \<times> int" where
  "month_day leapyear n =
     (let m = (n + 50) div 32;
          preceding = DAYS_BEFORE_MONTH ! nat m + (if m > 2 \<and> leapyear then 1 else 0)
      in if preceding > n
         then
           let m' = m - 1;
               preceding' = preceding
                 - (DAYS_IN_MONTH ! nat m' + (if m' = 2 \<and> leapyear then 1 else 0))
           in (m', n - preceding' + 1)
         else (m, n - preceding + 1))"

definition ord2ymd :: "int \<Rightarrow> int \<times> int \<times> int" where
  "ord2ymd ordinal =
     (let n0 = ordinal - 1;
          n400 = n0 div 146097; r400 = n0 mod 146097;
          n100 = r400 div 36524; r100 = r400 mod 36524;
          n4 = r100 div 1461; r4 = r100 mod 1461;
          n1 = r4 div 365; n = r4 mod 365;
          y = n400 * 400 + 1 + n100 * 100 + n4 * 4 + n1
      in if n1 = 4 \<or> n100 = 4 then (y - 1, 12, 31)
         else (case month_day (n1 = 3 \<and> (n4 \<noteq> 24 \<or> n100 = 3)) n of
                 (m, d) \<Rightarrow> (y, m, d)))"

definition toordinal :: "datetime \<Rightarrow> int" where
  "toordinal t = ymd2ord (year t) (month t) (day t)"

text \<open>The values the \<open>datetime\<close> constructor accepts.\<close>

definition valid_datetime :: "datetime \<Rightarrow> bool" where
  "valid_datetime t =
     (1 \<le> year t \<and> year t \<le> 9999 \<and> 1 \<le> month t \<and> month t \<le> 12
      \<and> 1 \<le> day t \<and> day t \<le> days_in_month (year t) (month t)
      \<and> 0 \<le> hour t \<and> hour t \<le> 23 \<and> 0 \<le> minute t \<and> minute t \<le> 59
      \<and> 0 \<le> second t \<and> second t \<le> 59
      \<and> 0 \<le> microsecond t \<and> microsecond t \<le> 999999)"

definition digit_char :: "int \<Rightarrow> char" where
  "digit_char d = char_of (48 + d)"

definition digit_val :: "char \<Rightarrow> int option" where
  "digit_val c =
     (let n = (of_char c :: int) in if 48 \<le> n \<and> n \<le> 57 then Some (n - 48) else None)"

definition pad2 :: "int \<Rightarrow> string" where
  "pad2 n = [digit_char (n div 10), digit_char (n mod 10)]"

definition pad4 :: "int \<Rightarrow> string" where
  "pad4 n = [digit_char (n div 1000), digit_char (n div 100 mod 10),
             digit_char (n div 10 mod 10), digit_char (n mod 10)]"

text \<open>
  \<open>t.strftime('%Y-%m-%d %H:%M:%S')\<close>: the zero-padded fields of a valid
  \<open>datetime\<close>; the microsecond and the time zone are not printed.
\<close>

definition strftime :: "datetime \<Rightarrow> string" where
  "strftime t =
     pad4 (year t) @ ''-'' @ pad2 (month t) @ ''-'' @ pad2 (day t) @ '' ''
     @ pad2 (hour t) @ '':'' @ pad2 (minute t) @ '':'' @ pad2 (second t)"

text \<open>A \<open>datetime\<close> cut to whole seconds, without its time zone.\<close>

definition truncate_seconds :: "datetime \<Rightarrow> datetime" where
  "truncate_seconds t = t\<lparr>microsecond := 0, tzinfo := None\<rparr>"

fun parse_digits :: "int \<Rightarrow> string \<Rightarrow> int option" where
  "parse_digits acc [] = Some acc"
| "parse_digits acc (c # cs) =
     (case digit_val c of None \<Rightarrow> None | Some d \<Rightarrow> parse_digits (10 * acc + d) cs)"

text \<open>
  \<open>datetime.strptime(s, '%Y-%m-%d %H:%M:%S')\<close> on the zero-padded 19-character
  form, the only one \<open>strftime\<close> produces and so the only one app.py passes to
  it. A string of another shape, a field that is not a number, or field values
  the \<open>datetime\<close> constructor refuses, raise \<open>ValueError\<close>. The result is naive
  and has microsecond 0.
\<close>

definition parse_fields :: "string \<Rightarrow> (int \<times> int \<times> int \<times> int \<times> int \<times> int) option" where
  "parse_fields s =
     (case parse_digits 0 (take 4 s) of None \<Rightarrow> None | Some Y \<Rightarrow>
      case parse_digits 0 (take 2 (drop 5 s)) of None \<Rightarrow> None | Some m \<Rightarrow>
      case parse_digits 0 (take 2 (drop 8 s)) of None \<Rightarrow> None | Some d \<Rightarrow>
      case parse_digits 0 (take 2 (drop 11 s)) of None \<Rightarrow> None | Some H \<Rightarrow>
      case parse_digits 0 (take 2 (drop 14 s)) of None \<Rightarrow> None | Some M \<Rightarrow>
      case parse_digits 0 (take 2 (drop 17 s)) of None \<Rightarrow> None | Some S \<Rightarrow>
        Some (Y, m, d, H, M, S))"

definition strptime :: "string \<Rightarrow> py_error + datetime" where
  "strptime s =
     (if length s = 19 \<and> s ! 4 = CHR ''-'' \<and> s ! 7 = CHR ''-'' \<and> s ! 10 = CHR '' ''
         \<and> s ! 13 = CHR '':'' \<and> s ! 16 = CHR '':''
      then
        (case parse_fields s of
           None \<Rightarrow> Inl ValueError
         | Some (Y, m, d, H, M, S) \<Rightarrow>
             (let t = \<lparr>year = Y, month = m, day = d, hour = H, minute = M, second = S,
                        microsecond = 0, tzinfo = None\<rparr>
              in if valid_datetime t then Inr t else Inl ValueError))
      else Inl ValueError)"

subsection \<open>timedelta and datetime arithmetic\<close>

text \<open>
  A \<open>timedelta\<close> is normalised to days, seconds and microseconds; it is kept
  here as its total number of microseconds. Its constructor raises
  \<open>OverflowError\<close> when the day count leaves \<open>\<plusminus>999999999\<close>.
\<close>

type_synonym timedelta = int

definition mk_timedelta :: "int \<Rightarrow> py_error + timedelta" where
  "mk_timedelta us =
     (if \<bar>us div 86400000000\<bar> > 999999999 then Inl OverflowError else Inr us)"

definition timedelta_minutes :: "int \<Rightarrow> py_error + timedelta" where
  "timedelta_minutes m = mk_timedelta (m * 60000000)"

definition timedelta_hours :: "int \<Rightarrow> py_error + timedelta" where
  "timedelta_hours h = mk_timedelta (h * 3600000000)"

text \<open>
  \<open>datetime.__add__\<close>: the value as a \<open>timedelta\<close> since ordinal 0, plus the
  other operand, split again into date and time; \<open>OverflowError\<close> when the day
  leaves \<open>1..MAXORDINAL\<close>. The time zone is kept.
\<close>

definition total_microseconds :: "datetime \<Rightarrow> int" where
  "total_microseconds t =
     (((toordinal t * 24 + hour t) * 60 + minute t) * 60 + second t) * 1000000
     + microsecond t"

definition datetime_add :: "datetime \<Rightarrow> timedelta \<Rightarrow> py_error + datetime" where
  "datetime_add t other =
     (case mk_timedelta (total_microseconds t + other) of
        Inl e \<Rightarrow> Inl e
      | Inr delta \<Rightarrow>
          (let days = delta div 86400000000;
               seconds = delta mod 86400000000 div 1000000;
               us = delta mod 1000000
           in if 0 < days \<and> days \<le> MAXORDINAL
              then (case ord2ymd days of
                      (y, m, d) \<Rightarrow>
                        Inr \<lparr>year = y, month = m, day = d,
                             hour = seconds div 3600, minute = seconds mod 3600 div 60,
                             second = seconds mod 60, microsecond = us, tzinfo = tzinfo t\<rparr>)
              else Inl OverflowError))"

text \<open>\<open>datetime.__sub__\<close> with a \<open>timedelta\<close>: \<open>self + -other\<close>.\<close>

definition datetime_sub :: "datetime \<Rightarrow> timedelta \<Rightarrow> py_error + datetime" where
  "datetime_sub t other =
     (case mk_timedelta (- other) of
        Inl e \<Rightarrow> Inl e
      | Inr neg \<Rightarrow> datetime_add t neg)"

text \<open>
  Comparison of two \<open>datetime\<close>s: \<open>TypeError\<close> between a naive and an aware
  value, otherwise the lexicographic order of the field tuples.
\<close>

fun tuple_gt :: "int list \<Rightarrow> int list \<Rightarrow> bool" where
  "tuple_gt (a # as) (b # bs) = (a > b \<or> (a = b \<and> tuple_gt as bs))"
| "tuple_gt (a # as) [] = True"
| "tuple_gt [] bs = False"

definition fields :: "datetime \<Rightarrow> int list" where
  "fields t = [year t, month t, day t, hour t, minute t, second t, microsecond t]"

definition datetime_gt :: "datetime \<Rightarrow> datetime \<Rightarrow> py_error + bool" where
  "datetime_gt a b =
     (if (tzinfo a = None) \<noteq> (tzinfo b = None) then Inl TypeError
      else Inr (tuple_gt (fields a) (fields b)))"

section \<open>The external collaborators\<close>

text \<open>
  What app.py takes from outside is gathered in one environment:
  \<^item> \<open>py_float\<close> and \<open>py_int\<close> are Python's \<open>float()\<close> and \<open>int()\<close> on a form
    string; they return a value or raise. The type \<open>'f\<close> of float values is left
    open, since app.py only hands them on.
  \<^item> \<open>tle_events latitude longitude\<close> is what Skyfield yields for the location:
    for each satellite of the TLE file, in file order, its name and the list
    \<open>zip(times, events)\<close> of \<open>find_events\<close> over the two days from now at 30
    degrees of altitude, the times already as \<open>utc_datetime()\<close>.
  \<^item> \<open>utcnow\<close> is the reading of \<open>datetime.utcnow()\<close> on line 132.
\<close>

type_synonym satellite = "string \<times> (datetime \<times> int) list"

record 'f env =
  py_float :: "string \<Rightarrow> py_error + 'f"
  py_int :: "string \<Rightarrow> py_error + int"
  tle_events :: "'f \<Rightarrow> 'f \<Rightarrow> satellite list"
  utcnow :: datetime

record email =
  mail_to :: string
  subject :: string
  body :: string

datatype job_state = Pending | Fired | Expired | Cancelled

record job =
  job_id :: nat
  run_date :: datetime
  args :: "string \<times> string"
  misfire_grace_time :: int
  state :: job_state

text \<open>
  The state outside the request: the job set of the process-wide scheduler, the
  messages handed to the SMTP server, and the locations for which
  \<open>static/map.html\<close> was written.
\<close>

record 'f world =
  jobs :: "job list"
  outbox :: "email list"
  rendered :: "('f \<times> 'f) list"

section \<open>app.py\<close>

subsection \<open>get_next_pass_times\<close>

text \<open>The inner loop of lines 37-41: the first event equal to 0, then \<open>break\<close>.\<close>

fun first_rise :: "(datetime \<times> int) list \<Rightarrow> datetime option" where
  "first_rise [] = None"
| "first_rise ((ti, event) # rest) = (if event = 0 then Some ti else first_rise rest)"

text \<open>The outer loop of lines 33-41, with the list \<open>next_passes\<close> it appends to.\<close>

fun passes_loop :: "satellite list \<Rightarrow> (string \<times> string) list \<Rightarrow> (string \<times> string) list" where
  "passes_loop [] next_passes = next_passes"
| "passes_loop ((name, evs) # satellites) next_passes =
     (case first_rise evs of
        None \<Rightarrow> passes_loop satellites next_passes
      | Some pass_time \<Rightarrow> passes_loop satellites (next_passes @ [(name, strftime pass_time)]))"

definition get_next_pass_times :: "'f env \<Rightarrow> 'f \<Rightarrow> 'f \<Rightarrow> (string \<times> string) list" where
  "get_next_pass_times e latitude longitude = passes_loop (tle_events e latitude longitude) []"

subsection \<open>estimate_data_availability\<close>

definition estimate_data_availability :: "string \<Rightarrow> py_error + string" where
  "estimate_data_availability pass_time_str =
     (case strptime pass_time_str of
        Inl err \<Rightarrow> Inl err
      | Inr pass_time \<Rightarrow>
          (case timedelta_hours 6 of
             Inl err \<Rightarrow> Inl err
           | Inr six_hours \<Rightarrow>
               (case datetime_add pass_time six_hours of
                  Inl err \<Rightarrow> Inl err
                | Inr available \<Rightarrow> Inr (strftime available))))"

subsection \<open>The two e-mails\<close>

text \<open>
  Both functions hand one message to the SMTP server and swallow any failure of
  the transport; the message handed over is recorded in the outbox.
\<close>

definition send_confirmation_email :: "string \<Rightarrow> 'f world \<Rightarrow> 'f world" where
  "send_confirmation_email user_id w =
     w\<lparr>outbox := outbox w @
        [\<lparr>mail_to = user_id,
          subject = ''Confirmation: Satellite Pass Notification Request Received'',
          body = ''Thank you for your request! We will notify you when the satellite passes over your location.''\<rparr>]\<rparr>"

definition notification_email :: "string \<Rightarrow> string \<Rightarrow> email" where
  "notification_email user_id message =
     \<lparr>mail_to = user_id, subject = ''Satellite Pass Notification'', body = message\<rparr>"

definition send_notification :: "string \<Rightarrow> string \<Rightarrow> 'f world \<Rightarrow> 'f world" where
  "send_notification user_id message w =
     w\<lparr>outbox := outbox w @ [notification_email user_id message]\<rparr>"

subsection \<open>schedule_notification and the scheduler\<close>

text \<open>
  Modelled from the spec: the scheduler is APScheduler's \<open>BackgroundScheduler\<close>, a
  library that is not part of app.py. \<open>add_job\<close> is the spec's \<open>schedule\<close>: it
  appends one pending job under an identifier no job of the set has (jobs are
  never removed, so the size of the set is fresh), with no look at the jobs
  already there.
\<close>

definition add_job :: "datetime \<Rightarrow> string \<times> string \<Rightarrow> int \<Rightarrow> 'f world \<Rightarrow> 'f world" where
  "add_job rd a grace w =
     w\<lparr>jobs := jobs w @
        [\<lparr>job_id = length (jobs w), run_date = rd, args = a,
          misfire_grace_time = grace, state = Pending\<rparr>]\<rparr>"

text \<open>Lines 81-87. The function returns nothing; a failed parse raises.\<close>

definition schedule_notification ::
  "string \<Rightarrow> string \<Rightarrow> string \<Rightarrow> 'f world \<Rightarrow> (py_error + unit) \<times> 'f world" where
  "schedule_notification notification_time_str user_id message w =
     (case strptime notification_time_str of
        Inl err \<Rightarrow> (Inl err, w)
      | Inr notification_time \<Rightarrow>
          (Inr (), add_job notification_time (user_id, message) 3600 w))"

text \<open>
  Modelled from the spec: the dispatch loop of the scheduler (section 4.3 of the
  spec), also APScheduler's. A pending job evaluated at \<open>now\<close> fires when
  \<open>fireAtUtc \<le> now \<le> fireAtUtc + grace\<close>, expires when \<open>now > fireAtUtc + grace\<close>,
  and stays pending before \<open>fireAtUtc\<close>; \<open>Fired\<close> and \<open>Expired\<close> are terminal.
  The lateness is the difference of two \<open>datetime\<close>s, in microseconds.
\<close>

definition lateness :: "datetime \<Rightarrow> job \<Rightarrow> int" where
  "lateness now j = total_microseconds now - total_microseconds (run_date j)"

definition job_fires :: "datetime \<Rightarrow> job \<Rightarrow> bool" where
  "job_fires now j =
     (state j = Pending \<and> 0 \<le> lateness now j
      \<and> lateness now j \<le> misfire_grace_time j * 1000000)"

definition job_transition :: "datetime \<Rightarrow> job \<Rightarrow> job" where
  "job_transition now j =
     (if state j \<noteq> Pending then j
      else if lateness now j > misfire_grace_time j * 1000000 then j\<lparr>state := Expired\<rparr>
      else if 0 \<le> lateness now j then j\<lparr>state := Fired\<rparr>
      else j)"

text \<open>
  Modelled from the spec: one evaluation by the dispatch loop (APScheduler's) of
  every job at \<open>now\<close>; a job that fires calls \<open>send_notification\<close>, the function
  of app.py that the job was given.
\<close>

definition dispatch :: "datetime \<Rightarrow> 'f world \<Rightarrow> 'f world" where
  "dispatch now w =
     (fold (\<lambda>j. send_notification (fst (args j)) (snd (args j)))
           (filter (job_fires now) (jobs w)) w)
     \<lparr>jobs := map (job_transition now) (jobs w)\<rparr>"

text \<open>
  Modelled from the spec: the life of one job over the successive evaluation
  times of the dispatch loop (APScheduler's), its last state and how many times
  it fired.
\<close>

fun job_run :: "datetime list \<Rightarrow> job \<Rightarrow> nat \<Rightarrow> job \<times> nat" where
  "job_run [] j fired = (j, fired)"
| "job_run (now # later) j fired =
     job_run later (job_transition now j) (if job_fires now j then Suc fired else fired)"

subsection \<open>display_grid_on_map\<close>

text \<open>
  Lines 90-114 draw nine rectangles and a marker with Folium and save
  \<open>static/map.html\<close>; the effect kept is that the map of the location was written.
\<close>

definition display_grid_on_map :: "'f \<Rightarrow> 'f \<Rightarrow> 'f world \<Rightarrow> 'f world" where
  "display_grid_on_map latitude longitude w =
     w\<lparr>rendered := rendered w @ [(latitude, longitude)]\<rparr>"

subsection \<open>home\<close>

datatype http_method = GET | POST

text \<open>Flask's \<open>request\<close>: \<open>request.method\<close> (here \<open>req_method\<close>) and \<open>request.form\<close>.\<close>

record request =
  req_method :: http_method
  form :: "string \<rightharpoonup> string"

text \<open>\<open>request.form[key]\<close>: a missing key raises a \<open>KeyError\<close>.\<close>

definition form_get :: "request \<Rightarrow> string \<Rightarrow> py_error + string" where
  "form_get req key = (case form req key of None \<Rightarrow> Inl KeyError | Some v \<Rightarrow> Inr v)"

text \<open>
  The page returned: \<open>home.html\<close>, \<open>error.html\<close> with its message (the fixed
  sentence of line 148, or the text of the exception caught on line 159), or
  \<open>confirmation.html\<close> with the scheduled notifications (passed twice, also as
  \<open>next_passes\<close>), the data availabilities and the user.
\<close>

datatype error_message = NoFuturePasses | ExceptionText py_error

datatype response =
  HomePage
| ErrorPage error_message
| ConfirmationPage "(string \<times> string) list" "(string \<times> string) list" string

type_synonym lists = "(string \<times> string) list \<times> (string \<times> string) list"

text \<open>
  The body of the loop of lines 133-145 for one pass, on the two lists
  \<open>scheduled_notifications\<close> and \<open>data_availabilities\<close>. An exception leaves the
  loop with the jobs scheduled so far in place.
\<close>

definition pass_body ::
  "datetime \<Rightarrow> int \<Rightarrow> string \<Rightarrow> string \<times> string \<Rightarrow> lists \<Rightarrow> 'f world
   \<Rightarrow> (py_error + lists) \<times> 'f world" where
  "pass_body now notification_time user_id p acc w =
     (case p of (satellite_name, pass_time_str) \<Rightarrow>
      case acc of (scheduled_notifications, data_availabilities) \<Rightarrow>
        if interest_match satellite_name then
          (case strptime pass_time_str of
             Inl err \<Rightarrow> (Inl err, w)
           | Inr pass_time \<Rightarrow>
          (case timedelta_minutes notification_time of
             Inl err \<Rightarrow> (Inl err, w)
           | Inr lead \<Rightarrow>
          (case datetime_sub pass_time lead of
             Inl err \<Rightarrow> (Inl err, w)
           | Inr notify_time \<Rightarrow>
          (case datetime_gt notify_time now of
             Inl err \<Rightarrow> (Inl err, w)
           | Inr False \<Rightarrow> (Inr acc, w)
           | Inr True \<Rightarrow>
              (let notify_time_str = strftime notify_time;
                   message = satellite_name @ '' will pass over your location at ''
                             @ pass_time_str @ '' UTC''
               in case schedule_notification notify_time_str user_id message w of
                    (Inl err, w') \<Rightarrow> (Inl err, w')
                  | (Inr u, w') \<Rightarrow>
                      (case estimate_data_availability pass_time_str of
                         Inl err \<Rightarrow> (Inl err, w')
                       | Inr data_availability_str \<Rightarrow>
                           (Inr (scheduled_notifications @ [(satellite_name, notify_time_str)],
                                 data_availabilities @ [(satellite_name, data_availability_str)]),
                            w')))))))
        else (Inr acc, w))"

fun schedule_passes ::
  "datetime \<Rightarrow> int \<Rightarrow> string \<Rightarrow> (string \<times> string) list \<Rightarrow> lists \<Rightarrow> 'f world
   \<Rightarrow> (py_error + lists) \<times> 'f world" where
  "schedule_passes now notification_time user_id [] acc w = (Inr acc, w)"
| "schedule_passes now notification_time user_id (p # ps) acc w =
     (case pass_body now notification_time user_id p acc w of
        (Inl err, w') \<Rightarrow> (Inl err, w')
      | (Inr acc', w') \<Rightarrow> schedule_passes now notification_time user_id ps acc' w')"

text \<open>
  Lines 120-123: the four form fields, read in this order. A missing field raises
  \<open>KeyError\<close>; \<open>float()\<close> and \<open>int()\<close> raise what the environment says. No
  range is checked.
\<close>

definition parse_form :: "'f env \<Rightarrow> request \<Rightarrow> py_error + ('f \<times> 'f \<times> int \<times> string)" where
  "parse_form e req =
     (case form_get req ''latitude'' of Inl err \<Rightarrow> Inl err | Inr lat_str \<Rightarrow>
      case py_float e lat_str of Inl err \<Rightarrow> Inl err | Inr latitude \<Rightarrow>
      case form_get req ''longitude'' of Inl err \<Rightarrow> Inl err | Inr lon_str \<Rightarrow>
      case py_float e lon_str of Inl err \<Rightarrow> Inl err | Inr longitude \<Rightarrow>
      case form_get req ''notification_time'' of Inl err \<Rightarrow> Inl err | Inr nt_str \<Rightarrow>
      case py_int e nt_str of Inl err \<Rightarrow> Inl err | Inr notification_time \<Rightarrow>
      case form_get req ''user_id'' of Inl err \<Rightarrow> Inl err | Inr user_id \<Rightarrow>
        Inr (latitude, longitude, notification_time, user_id))"

text \<open>The \<open>try\<close> block of lines 119-158.\<close>

definition home_post :: "'f env \<Rightarrow> request \<Rightarrow> 'f world \<Rightarrow> (py_error + response) \<times> 'f world" where
  "home_post e req w =
     (case parse_form e req of
        Inl err \<Rightarrow> (Inl err, w)
      | Inr (latitude, longitude, notification_time, user_id) \<Rightarrow>
        (let w1 = send_confirmation_email user_id w;
             next_passes = get_next_pass_times e latitude longitude;
             now = utcnow e
         in case schedule_passes now notification_time user_id next_passes ([], []) w1 of
              (Inl err, w2) \<Rightarrow> (Inl err, w2)
            | (Inr (scheduled_notifications, data_availabilities), w2) \<Rightarrow>
                if scheduled_notifications = []
                then (Inr (ErrorPage NoFuturePasses), w2)
                else (Inr (ConfirmationPage scheduled_notifications data_availabilities user_id),
                      display_grid_on_map latitude longitude w2)))"

text \<open>Lines 116-162: the handler, with \<open>except Exception\<close> around the \<open>try\<close> block.\<close>

definition home :: "'f env \<Rightarrow> request \<Rightarrow> 'f world \<Rightarrow> response \<times> 'f world" where
  "home e req w =
     (if req_method req = POST
      then (case home_post e req w of
              (Inl err, w') \<Rightarrow> (ErrorPage (ExceptionText err), w')
            | (Inr page, w') \<Rightarrow> (page, w'))
      else (HomePage, w))"

section \<open>A worked request\<close>

text \<open>
  The inputs of the examples: a request for latitude 34 and longitude -118 with a
  lead of 30 minutes, received at 00:00:00.25 on 1 January 2030, when Skyfield
  reports a first rise of LANDSAT 8 at 10:00:00.6 and of NOAA 19 at 02:00:00, and
  no rise of TERRA.
\<close>

text \<open>
  \<open>decimal_literal\<close> reads an optional minus sign and decimal digits. The examples
  use it for \<open>int()\<close>, and for \<open>float()\<close> on whole numbers (the float is kept as
  the integer it equals).
\<close>

definition decimal_literal :: "string \<Rightarrow> py_error + int" where
  "decimal_literal s =
     (case s of
        [] \<Rightarrow> Inl ValueError
      | c # cs \<Rightarrow>
          if c = CHR ''-''
          then (if cs = [] then Inl ValueError
                else case parse_digits 0 cs of None \<Rightarrow> Inl ValueError | Some n \<Rightarrow> Inr (- n))
          else (case parse_digits 0 s of None \<Rightarrow> Inl ValueError | Some n \<Rightarrow> Inr n))"

definition example_now :: datetime where
  "example_now = \<lparr>year = 2030, month = 1, day = 1, hour = 0, minute = 0, second = 0,
                   microsecond = 250000, tzinfo = None\<rparr>"

definition at_utc :: "int \<Rightarrow> int \<Rightarrow> int \<Rightarrow> int \<Rightarrow> datetime" where
  "at_utc h m s us = \<lparr>year = 2030, month = 1, day = 1, hour = h, minute = m, second = s,
                       microsecond = us, tzinfo = Some UTC\<rparr>"

definition example_satellites :: "satellite list" where
  "example_satellites =
     [(''LANDSAT 8'', [(at_utc 0 5 0 0, 1), (at_utc 0 9 0 0, 2), (at_utc 10 0 0 600000, 0),
                       (at_utc 10 5 0 0, 1), (at_utc 10 9 0 0, 2), (at_utc 21 40 0 0, 0)]),
      (''TERRA'', [(at_utc 0 3 0 0, 2)]),
      (''NOAA 19'', [(at_utc 2 0 0 0, 0), (at_utc 2 6 0 0, 1), (at_utc 2 11 0 0, 2)])]"

definition example_env :: "int env" where
  "example_env = \<lparr>py_float = decimal_literal, py_int = decimal_literal,
                   tle_events = (\<lambda>latitude longitude. example_satellites),
                   utcnow = example_now\<rparr>"

definition example_request :: request where
  "example_request =
     \<lparr>req_method = POST,
      form = map_of [(''latitude'', ''34''), (''longitude'', ''-118''),
                     (''notification_time'', ''30''), (''user_id'', ''user@example.org'')]\<rparr>"

text \<open>The same request from latitude 100, and one whose lead is not a number.\<close>

definition request_latitude_100 :: request where
  "request_latitude_100 =
     \<lparr>req_method = POST,
      form = map_of [(''latitude'', ''100''), (''longitude'', ''-118''),
                     (''notification_time'', ''30''), (''user_id'', ''user@example.org'')]\<rparr>"

definition request_bad_lead :: request where
  "request_bad_lead =
     \<lparr>req_method = POST,
      form = map_of [(''latitude'', ''34''), (''longitude'', ''-118''),
                     (''notification_time'', ''soon''), (''user_id'', ''user@example.org'')]\<rparr>"

definition empty_world :: "int world" where
  "empty_world = \<lparr>jobs = [], outbox = [], rendered = []\<rparr>"

text \<open>The same request with a lead of 700 minutes, and Skyfield with no satellite.\<close>

definition request_long_lead :: request where
  "request_long_lead =
     \<lparr>req_method = POST,
      form = map_of [(''latitude'', ''34''), (''longitude'', ''-118''),
                     (''notification_time'', ''700''), (''user_id'', ''user@example.org'')]\<rparr>"

definition empty_sky_env :: "int env" where
  "empty_sky_env = example_env\<lparr>tle_events := (\<lambda>latitude longitude. [])\<rparr>"

text \<open>
  Skyfield reporting a rise of LANDSAT 8 at 10:00 and of LANDSAT 9 at 12:00, and
  the request with a lead of -4191813479 minutes (a notification that long after
  the pass).
\<close>

definition two_landsat_env :: "int env" where
  "two_landsat_env =
     example_env\<lparr>tle_events := (\<lambda>latitude longitude.
        [(''LANDSAT 8'', [(at_utc 10 0 0 0, 0)]), (''LANDSAT 9'', [(at_utc 12 0 0 0, 0)])])\<rparr>"

definition request_negative_lead :: request where
  "request_negative_lead =
     \<lparr>req_method = POST,
      form = map_of [(''latitude'', ''34''), (''longitude'', ''-118''),
                     (''notification_time'', ''-4191813479''),
                     (''user_id'', ''user@example.org'')]\<rparr>"

text \<open>
  Modelled from the spec: the dispatch loop over its successive evaluation times
  (it may be paused or restarted between any two of them).
\<close>

definition run_dispatcher :: "datetime list \<Rightarrow> 'f world \<Rightarrow> 'f world" where
  "run_dispatcher ticks w = fold dispatch ticks w"

text \<open>A naive time of day on 1 January 2030, for the evaluation times of the examples.\<close>

definition at_naive :: "int \<Rightarrow> int \<Rightarrow> int \<Rightarrow> int \<Rightarrow> datetime" where
  "at_naive h m s us = \<lparr>year = 2030, month = 1, day = 1, hour = h, minute = m, second = s,
                         microsecond = us, tzinfo = None\<rparr>"

section \<open>Interest matching\<close>

lemma starts_with_iff: "starts_with p s \<longleftrightarrow> (\<exists>suf. s = p @ suf)"
  by (induction p s rule: starts_with.induct) auto

lemma py_in_iff: "py_in needle hay \<longleftrightarrow> (\<exists>pre suf. hay = pre @ needle @ suf)"
proof (induction hay)
  case Nil
  then show ?case by auto
next
  case (Cons c cs)
  show ?case
  proof
    assume "py_in needle (c # cs)"
    then consider "starts_with needle (c # cs)" | "py_in needle cs" by auto
    then show "\<exists>pre suf. c # cs = pre @ needle @ suf"
    proof cases
      case 1
      then obtain suf where "c # cs = needle @ suf" by (auto simp: starts_with_iff)
      then have "c # cs = [] @ needle @ suf" by simp
      then show ?thesis by blast
    next
      case 2
      with Cons obtain pre suf where "cs = pre @ needle @ suf" by auto
      then have "c # cs = (c # pre) @ needle @ suf" by simp
      then show ?thesis by blast
    qed
  next
    assume "\<exists>pre suf. c # cs = pre @ needle @ suf"
    then obtain pre suf where eq: "c # cs = pre @ needle @ suf" by blast
    show "py_in needle (c # cs)"
    proof (cases pre)
      case Nil
      with eq have "starts_with needle (c # cs)" by (auto simp: starts_with_iff)
      then show ?thesis by simp
    next
      case (Cons p ps)
      with eq have "cs = ps @ needle @ suf" by simp
      with Cons.IH have "py_in needle cs" by blast
      then show ?thesis by simp
    qed
  qed
qed

section \<open>The calendar of the standard library\<close>

lemma mod_zero_range:
  fixes x k q :: int
  assumes "0 < x" "x \<le> k"
  shows "((q * k + x) mod k = 0) = (x = k)"
proof (cases "x = k")
  case True
  then show ?thesis by simp
next
  case False
  with assms have "x < k" by simp
  with assms(1) have "x mod k = x" by simp
  moreover have "(q * k + x) mod k = x mod k" by simp
  ultimately show ?thesis using assms(1) False by simp
qed

lemma leap_cycles:
  assumes "0 \<le> a" "0 \<le> b" "b \<le> 3" "0 \<le> c" "c \<le> 24" "0 \<le> e" "e \<le> 3"
  shows "is_leap (a * 400 + 1 + b * 100 + c * 4 + e) \<longleftrightarrow> (e = 3 \<and> (c \<noteq> 24 \<or> b = 3))"
proof -
  let ?Y = "a * 400 + 1 + b * 100 + c * 4 + e"
  have Y4: "?Y = (a * 100 + b * 25 + c) * 4 + (1 + e)" by simp
  have Y100: "?Y = (a * 4 + b) * 100 + (c * 4 + 1 + e)" by simp
  have Y400: "?Y = a * 400 + (b * 100 + c * 4 + 1 + e)" by simp
  have m4: "(?Y mod 4 = 0) = (1 + e = 4)"
    unfolding Y4 using assms by (intro mod_zero_range) linarith+
  have m100: "(?Y mod 100 = 0) = (c * 4 + 1 + e = 100)"
    unfolding Y100 using assms by (intro mod_zero_range) linarith+
  have m400: "(?Y mod 400 = 0) = (b * 100 + c * 4 + 1 + e = 400)"
    unfolding Y400 using assms by (intro mod_zero_range) linarith+
  show ?thesis
    unfolding is_leap_def m4 m100 m400 using assms by linarith
qed

lemma month_day_valid:
  assumes "0 \<le> n" "n \<le> 364" "month_day L n = (m, d)"
  shows "1 \<le> m \<and> m \<le> 12 \<and> 1 \<le> d \<and> d \<le> DAYS_IN_MONTH ! nat m + (if m = 2 \<and> L then 1 else 0)"
proof -
  define k where "k = (n + 50) div 32"
  have kb: "1 \<le> k" "k \<le> 12" using assms(1,2) unfolding k_def by linarith+
  have nb: "32 * k - 50 \<le> n" "n \<le> 32 * k - 19" unfolding k_def by linarith+
  from kb have "k = 1 \<or> k = 2 \<or> k = 3 \<or> k = 4 \<or> k = 5 \<or> k = 6
    \<or> k = 7 \<or> k = 8 \<or> k = 9 \<or> k = 10 \<or> k = 11 \<or> k = 12" by presburger
  then consider "k = 1" | "k = 2" | "k = 3" | "k = 4" | "k = 5" | "k = 6"
    | "k = 7" | "k = 8" | "k = 9" | "k = 10" | "k = 11" | "k = 12" by blast
  then show ?thesis
  proof cases
  
    case 1 with assms nb show ?thesis
      by (simp add: month_day_def k_def[symmetric] DAYS_BEFORE_MONTH_def DAYS_IN_MONTH_def Let_def split: if_splits)
  next
    case 2 with assms nb show ?thesis
      by (simp add: month_day_def k_def[symmetric] DAYS_BEFORE_MONTH_def DAYS_IN_MONTH_def Let_def split: if_splits)
  next
    case 3 with assms nb show ?thesis
      by (simp add: month_day_def k_def[symmetric] DAYS_BEFORE_MONTH_def DAYS_IN_MONTH_def Let_def split: if_splits)
  next
    case 4 with assms nb show ?thesis
      by (simp add: month_day_def k_def[symmetric] DAYS_BEFORE_MONTH_def DAYS_IN_MONTH_def Let_def split: if_splits)
  next
    case 5 with assms nb show ?thesis
      by (simp add: month_day_def k_def[symmetric] DAYS_BEFORE_MONTH_def DAYS_IN_MONTH_def Let_def split: if_splits)
  next
    case 6 with assms nb show ?thesis
      by (simp add: month_day_def k_def[symmetric] DAYS_BEFORE_MONTH_def DAYS_IN_MONTH_def Let_def split: if_splits)
  next
    case 7 with assms nb show ?thesis
      by (simp add: month_day_def k_def[symmetric] DAYS_BEFORE_MONTH_def DAYS_IN_MONTH_def Let_def split: if_splits)
  next
    case 8 with assms nb show ?thesis
      by (simp add: month_day_def k_def[symmetric] DAYS_BEFORE_MONTH_def DAYS_IN_MONTH_def Let_def split: if_splits)
  next
    case 9 with assms nb show ?thesis
      by (simp add: month_day_def k_def[symmetric] DAYS_BEFORE_MONTH_def DAYS_IN_MONTH_def Let_def split: if_splits)
  next
    case 10 with assms nb show ?thesis
      by (simp add: month_day_def k_def[symmetric] DAYS_BEFORE_MONTH_def DAYS_IN_MONTH_def Let_def split: if_splits)
  next
    case 11 with assms nb show ?thesis
      by (simp add: month_day_def k_def[symmetric] DAYS_BEFORE_MONTH_def DAYS_IN_MONTH_def Let_def split: if_splits)
  next
    case 12 with assms nb show ?thesis
      by (simp add: month_day_def k_def[symmetric] DAYS_BEFORE_MONTH_def DAYS_IN_MONTH_def Let_def split: if_splits)
  qed
qed

lemma ord2ymd_valid:
  assumes "1 \<le> n" "n \<le> 3652059" "ord2ymd n = (y, m, d)"
  shows "1 \<le> y \<and> y \<le> 9999 \<and> 1 \<le> m \<and> m \<le> 12 \<and> 1 \<le> d \<and> d \<le> days_in_month y m"
proof -
  define a where "a = (n - 1) div 146097"
  define r400 where "r400 = (n - 1) mod 146097"
  define b where "b = r400 div 36524"
  define r100 where "r100 = r400 mod 36524"
  define c where "c = r100 div 1461"
  define r4 where "r4 = r100 mod 1461"
  define e where "e = r4 div 365"
  define r where "r = r4 mod 365"
  define Y where "Y = a * 400 + 1 + b * 100 + c * 4 + e"
  have A: "n - 1 = 146097 * a + r400" "0 \<le> r400" "r400 < 146097"
    unfolding a_def r400_def by simp_all
  have B: "r400 = 36524 * b + r100" "0 \<le> r100" "r100 < 36524"
    unfolding b_def r100_def by simp_all
  have C: "r100 = 1461 * c + r4" "0 \<le> r4" "r4 < 1461"
    unfolding c_def r4_def by simp_all
  have E: "r4 = 365 * e + r" "0 \<le> r" "r < 365"
    unfolding e_def r_def by simp_all
  have a0: "0 \<le> a" "a \<le> 24" using A assms(1,2) by linarith+
  have b0: "0 \<le> b" "b \<le> 4" using A B by linarith+
  have c0: "0 \<le> c" "c \<le> 24" using B C by linarith+
  have e0: "0 \<le> e" "e \<le> 4" using C E by linarith+
  have eq: "ord2ymd n = (if e = 4 \<or> b = 4 then (Y - 1, 12, 31)
      else (case month_day (e = 3 \<and> (c \<noteq> 24 \<or> b = 3)) r of (m, d) \<Rightarrow> (Y, m, d)))"
    unfolding ord2ymd_def Let_def a_def r400_def b_def r100_def c_def r4_def e_def r_def Y_def
    by (rule refl)
  show ?thesis
  proof (cases "e = 4 \<or> b = 4")
    case True
    with eq assms(3) have ymd: "y = Y - 1" "m = 12" "d = 31" by simp_all
    have "1 \<le> Y - 1" using True a0 b0 c0 e0 unfolding Y_def by linarith
    moreover have "Y - 1 \<le> 9999"
      using True A B C E a0 b0 c0 e0 assms(2) unfolding Y_def by linarith
    ultimately show ?thesis using ymd
      by (simp add: days_in_month_def DAYS_IN_MONTH_def)
  next
    case False
    then have b3: "b \<le> 3" and e3: "e \<le> 3" using b0 e0 by linarith+
    obtain m' d' where md: "month_day (e = 3 \<and> (c \<noteq> 24 \<or> b = 3)) r = (m', d')"
      by (cases "month_day (e = 3 \<and> (c \<noteq> 24 \<or> b = 3)) r") blast
    with eq False assms(3) have ymd: "y = Y" "m = m'" "d = d'" by simp_all
    have r364: "r \<le> 364" using E by linarith
    from month_day_valid[OF E(2) r364 md]
    have mv: "1 \<le> m'" "m' \<le> 12" "1 \<le> d'"
      "d' \<le> DAYS_IN_MONTH ! nat m' + (if m' = 2 \<and> (e = 3 \<and> (c \<noteq> 24 \<or> b = 3)) then 1 else 0)"
      by simp_all
    have leap: "is_leap Y \<longleftrightarrow> (e = 3 \<and> (c \<noteq> 24 \<or> b = 3))"
      unfolding Y_def by (rule leap_cycles[OF a0(1) b0(1) b3 c0 e0(1) e3])
    have y1: "1 \<le> Y" using a0 b0 c0 e0 unfolding Y_def by linarith
    have y2: "Y \<le> 9999"
      using A B C E a0 b0 b3 c0 e0 e3 assms(2) unfolding Y_def by linarith
    have "d' \<le> days_in_month Y m'"
      using mv(4) leap by (auto simp: days_in_month_def DAYS_IN_MONTH_def split: if_splits)
    with mv y1 y2 ymd show ?thesis by simp
  qed
qed

lemma month_day_inverse:
  assumes "0 \<le> n" "n \<le> 364" "month_day L n = (m, d)"
  shows "DAYS_BEFORE_MONTH ! nat m + (if m > 2 \<and> L then 1 else 0) + d = n + 1"
proof -
  define k where "k = (n + 50) div 32"
  have kb: "1 \<le> k" "k \<le> 12" using assms(1,2) unfolding k_def by linarith+
  have nb: "32 * k - 50 \<le> n" "n \<le> 32 * k - 19" unfolding k_def by linarith+
  from kb have "k = 1 \<or> k = 2 \<or> k = 3 \<or> k = 4 \<or> k = 5 \<or> k = 6
    \<or> k = 7 \<or> k = 8 \<or> k = 9 \<or> k = 10 \<or> k = 11 \<or> k = 12" by presburger
  then consider "k = 1" | "k = 2" | "k = 3" | "k = 4" | "k = 5" | "k = 6"
    | "k = 7" | "k = 8" | "k = 9" | "k = 10" | "k = 11" | "k = 12" by blast
  then show ?thesis
  proof cases
  
    case 1 with assms nb show ?thesis
      by (simp add: month_day_def k_def[symmetric] DAYS_BEFORE_MONTH_def DAYS_IN_MONTH_def Let_def split: if_splits)
  next
    case 2 with assms nb show ?thesis
      by (simp add: month_day_def k_def[symmetric] DAYS_BEFORE_MONTH_def DAYS_IN_MONTH_def Let_def split: if_splits)
  next
    case 3 with assms nb show ?thesis
      by (simp add: month_day_def k_def[symmetric] DAYS_BEFORE_MONTH_def DAYS_IN_MONTH_def Let_def split: if_splits)
  next
    case 4 with assms nb show ?thesis
      by (simp add: month_day_def k_def[symmetric] DAYS_BEFORE_MONTH_def DAYS_IN_MONTH_def Let_def split: if_splits)
  next
    case 5 with assms nb show ?thesis
      by (simp add: month_day_def k_def[symmetric] DAYS_BEFORE_MONTH_def DAYS_IN_MONTH_def Let_def split: if_splits)
  next
    case 6 with assms nb show ?thesis
      by (simp add: month_day_def k_def[symmetric] DAYS_BEFORE_MONTH_def DAYS_IN_MONTH_def Let_def split: if_splits)
  next
    case 7 with assms nb show ?thesis
      by (simp add: month_day_def k_def[symmetric] DAYS_BEFORE_MONTH_def DAYS_IN_MONTH_def Let_def split: if_splits)
  next
    case 8 with assms nb show ?thesis
      by (simp add: month_day_def k_def[symmetric] DAYS_BEFORE_MONTH_def DAYS_IN_MONTH_def Let_def split: if_splits)
  next
    case 9 with assms nb show ?thesis
      by (simp add: month_day_def k_def[symmetric] DAYS_BEFORE_MONTH_def DAYS_IN_MONTH_def Let_def split: if_splits)
  next
    case 10 with assms nb show ?thesis
      by (simp add: month_day_def k_def[symmetric] DAYS_BEFORE_MONTH_def DAYS_IN_MONTH_def Let_def split: if_splits)
  next
    case 11 with assms nb show ?thesis
      by (simp add: month_day_def k_def[symmetric] DAYS_BEFORE_MONTH_def DAYS_IN_MONTH_def Let_def split: if_splits)
  next
    case 12 with assms nb show ?thesis
      by (simp add: month_day_def k_def[symmetric] DAYS_BEFORE_MONTH_def DAYS_IN_MONTH_def Let_def split: if_splits)
  qed
qed

lemma div_in_range:
  fixes x k q :: int
  assumes "0 \<le> x" "x < k"
  shows "(q * k + x) div k = q"
  using assms by simp

lemma days_before_year_cycles:
  assumes "0 \<le> b" "b \<le> 3" "0 \<le> c" "c \<le> 24" "0 \<le> e" "e \<le> 3"
  shows "days_before_year (a * 400 + 1 + b * 100 + c * 4 + e)
         = 146097 * a + 36524 * b + 1461 * c + 365 * e"
proof -
  define y1 where "y1 = a * 400 + b * 100 + c * 4 + e"
  have d4: "y1 div 4 = a * 100 + b * 25 + c"
  proof -
    have "y1 = (a * 100 + b * 25 + c) * 4 + e" unfolding y1_def by simp
    then show ?thesis using div_in_range[of e 4 "a * 100 + b * 25 + c"] assms by simp
  qed
  have d100: "y1 div 100 = a * 4 + b"
  proof -
    have "y1 = (a * 4 + b) * 100 + (c * 4 + e)" unfolding y1_def by simp
    moreover have "0 \<le> c * 4 + e" "c * 4 + e < 100" using assms by linarith+
    ultimately show ?thesis using div_in_range[of "c * 4 + e" 100 "a * 4 + b"] by simp
  qed
  have d400: "y1 div 400 = a"
  proof -
    have "y1 = a * 400 + (b * 100 + c * 4 + e)" unfolding y1_def by simp
    moreover have "0 \<le> b * 100 + c * 4 + e" "b * 100 + c * 4 + e < 400"
      using assms by linarith+
    ultimately show ?thesis using div_in_range[of "b * 100 + c * 4 + e" 400 a] by simp
  qed
  have "a * 400 + 1 + b * 100 + c * 4 + e - 1 = y1" unfolding y1_def by simp
  then have "days_before_year (a * 400 + 1 + b * 100 + c * 4 + e)
      = y1 * 365 + y1 div 4 - y1 div 100 + y1 div 400"
    unfolding days_before_year_def Let_def by simp
  also have "\<dots> = y1 * 365 + (a * 100 + b * 25 + c) - (a * 4 + b) + a"
    unfolding d4 d100 d400 by (rule refl)
  also have "\<dots> = 146097 * a + 36524 * b + 1461 * c + 365 * e"
    unfolding y1_def by simp
  finally show ?thesis .
qed

lemma ymd2ord_ord2ymd:
  assumes "1 \<le> n" "ord2ymd n = (y, m, d)"
  shows "ymd2ord y m d = n"
proof -
  define a where "a = (n - 1) div 146097"
  define r400 where "r400 = (n - 1) mod 146097"
  define b where "b = r400 div 36524"
  define r100 where "r100 = r400 mod 36524"
  define c where "c = r100 div 1461"
  define r4 where "r4 = r100 mod 1461"
  define e where "e = r4 div 365"
  define r where "r = r4 mod 365"
  define Y where "Y = a * 400 + 1 + b * 100 + c * 4 + e"
  have A: "n - 1 = 146097 * a + r400" "0 \<le> r400" "r400 < 146097"
    unfolding a_def r400_def by simp_all
  have B: "r400 = 36524 * b + r100" "0 \<le> r100" "r100 < 36524"
    unfolding b_def r100_def by simp_all
  have C: "r100 = 1461 * c + r4" "0 \<le> r4" "r4 < 1461"
    unfolding c_def r4_def by simp_all
  have E: "r4 = 365 * e + r" "0 \<le> r" "r < 365"
    unfolding e_def r_def by simp_all
  have a0: "0 \<le> a" using A assms(1) by linarith
  have b0: "0 \<le> b" "b \<le> 4" using A B by linarith+
  have c0: "0 \<le> c" "c \<le> 24" using B C by linarith+
  have e0: "0 \<le> e" "e \<le> 4" using C E by linarith+
  have eq: "ord2ymd n = (if e = 4 \<or> b = 4 then (Y - 1, 12, 31)
      else (case month_day (e = 3 \<and> (c \<noteq> 24 \<or> b = 3)) r of (m, d) \<Rightarrow> (Y, m, d)))"
    unfolding ord2ymd_def Let_def a_def r400_def b_def r100_def c_def r4_def e_def r_def Y_def
    by (rule refl)
  show ?thesis
  proof (cases "b = 4")
    case True
    with eq assms(2) have ymd: "y = Y - 1" "m = 12" "d = 31" by simp_all
    from True A B C E c0 e0 have z: "c = 0" "e = 0" "r = 0" by linarith+
    have "Y - 1 = a * 400 + 1 + 3 * 100 + 24 * 4 + 3" unfolding Y_def using True z by simp
    then have dby: "days_before_year (Y - 1) = 146097 * a + 36524 * 3 + 1461 * 24 + 365 * 3"
      using days_before_year_cycles[of 3 24 3 a] by simp
    have lp: "is_leap (Y - 1)"
      using leap_cycles[of a 3 24 3] a0 \<open>Y - 1 = a * 400 + 1 + 3 * 100 + 24 * 4 + 3\<close> by simp
    have "ymd2ord (Y - 1) 12 31 = n"
      unfolding ymd2ord_def days_before_month_def dby using lp True z A B C E
      by (simp add: DAYS_BEFORE_MONTH_def)
    with ymd show ?thesis by simp
  next
    case b4: False
    then have b3: "b \<le> 3" using b0 by linarith
    show ?thesis
    proof (cases "e = 4")
      case True
      with eq assms(2) have ymd: "y = Y - 1" "m = 12" "d = 31" by simp_all
      from True C E have z: "r = 0" "c \<le> 23" using B by linarith+
      have Y1: "Y - 1 = a * 400 + 1 + b * 100 + c * 4 + 3" unfolding Y_def using True by simp
      have dby: "days_before_year (Y - 1) = 146097 * a + 36524 * b + 1461 * c + 365 * 3"
        unfolding Y1 using days_before_year_cycles[of b c 3 a] b0 b3 c0 by simp
      have lp: "is_leap (Y - 1)"
        unfolding Y1 using leap_cycles[of a b c 3] a0 b0 b3 c0 z by simp
      have "ymd2ord (Y - 1) 12 31 = n"
        unfolding ymd2ord_def days_before_month_def dby using lp True z A B C E
        by (simp add: DAYS_BEFORE_MONTH_def)
      with ymd show ?thesis by simp
    next
      case False
      then have e3: "e \<le> 3" using e0 by linarith
      obtain m' d' where md: "month_day (e = 3 \<and> (c \<noteq> 24 \<or> b = 3)) r = (m', d')"
        by (cases "month_day (e = 3 \<and> (c \<noteq> 24 \<or> b = 3)) r") blast
      with eq False b4 assms(2) have ymd: "y = Y" "m = m'" "d = d'" by simp_all
      have r364: "r \<le> 364" using E by linarith
      have leap: "is_leap Y \<longleftrightarrow> (e = 3 \<and> (c \<noteq> 24 \<or> b = 3))"
        unfolding Y_def by (rule leap_cycles[OF a0 b0(1) b3 c0 e0(1) e3])
      have dby: "days_before_year Y = 146097 * a + 36524 * b + 1461 * c + 365 * e"
        unfolding Y_def by (rule days_before_year_cycles[OF b0(1) b3 c0 e0(1) e3])
      have "days_before_month Y m' + d' = r + 1"
        unfolding days_before_month_def leap
        by (rule month_day_inverse[OF E(2) r364 md])
      then have "ymd2ord Y m' d' = n"
        unfolding ymd2ord_def dby using A B C E by linarith
      with ymd show ?thesis by simp
    qed
  qed
qed

lemma digit_val_digit_char:
  assumes "0 \<le> d" "d \<le> 9"
  shows "digit_val (digit_char d) = Some d"
proof -
  have "(of_char (char_of (48 + d)) :: int) = (48 + d) mod 256" by (rule of_char_of)
  also have "\<dots> = 48 + d" using assms by simp
  finally show ?thesis using assms by (simp add: digit_val_def digit_char_def)
qed

lemma parse_pad2:
  assumes "0 \<le> n" "n \<le> 99"
  shows "parse_digits 0 (pad2 n) = Some n"
proof -
  have a: "0 \<le> n div 10" "n div 10 \<le> 9" using assms by linarith+
  have b: "0 \<le> n mod 10" "n mod 10 \<le> 9" by simp_all
  show ?thesis
    by (simp add: pad2_def digit_val_digit_char[OF a] digit_val_digit_char[OF b])
qed

lemma parse_pad4:
  assumes "0 \<le> n" "n \<le> 9999"
  shows "parse_digits 0 (pad4 n) = Some n"
proof -
  have a: "0 \<le> n div 1000" "n div 1000 \<le> 9" using assms by linarith+
  have b: "0 \<le> n div 100 mod 10" "n div 100 mod 10 \<le> 9" by simp_all
  have c: "0 \<le> n div 10 mod 10" "n div 10 mod 10 \<le> 9" by simp_all
  have d: "0 \<le> n mod 10" "n mod 10 \<le> 9" by simp_all
  have e1: "n div 100 = n div 10 div 10" and e2: "n div 1000 = n div 10 div 10 div 10"
    using zdiv_zmult2_eq[of 10 n 10] zdiv_zmult2_eq[of 10 "n div 10" 10]
      zdiv_zmult2_eq[of 10 n 100] by simp_all
  have "10 * (10 * (10 * (n div 1000) + n div 100 mod 10) + n div 10 mod 10) + n mod 10 = n"
    unfolding e1 e2 by (simp add: mult_div_mod_eq)
  then show ?thesis
    by (simp add: pad4_def digit_val_digit_char[OF a] digit_val_digit_char[OF b]
        digit_val_digit_char[OF c] digit_val_digit_char[OF d])
qed

lemma days_in_month_le:
  assumes "1 \<le> m" "m \<le> 12"
  shows "days_in_month y m \<le> 31"
proof -
  from assms have "m = 1 \<or> m = 2 \<or> m = 3 \<or> m = 4 \<or> m = 5 \<or> m = 6
    \<or> m = 7 \<or> m = 8 \<or> m = 9 \<or> m = 10 \<or> m = 11 \<or> m = 12" by presburger
  then show ?thesis
    by (auto simp: days_in_month_def DAYS_IN_MONTH_def)
qed

lemma strptime_strftime:
  assumes "valid_datetime t"
  shows "strptime (strftime t) = Inr (t\<lparr>microsecond := 0, tzinfo := None\<rparr>)"
proof -
  from assms have v: "1 \<le> year t" "year t \<le> 9999" "1 \<le> month t" "month t \<le> 12"
    "1 \<le> day t" "day t \<le> days_in_month (year t) (month t)"
    "0 \<le> hour t" "hour t \<le> 23" "0 \<le> minute t" "minute t \<le> 59"
    "0 \<le> second t" "second t \<le> 59"
    by (simp_all add: valid_datetime_def)
  have d31: "day t \<le> 31" using days_in_month_le[OF v(3,4), of "year t"] v(6) by linarith
  have pY: "parse_digits 0 (pad4 (year t)) = Some (year t)"
    using v by (intro parse_pad4) linarith+
  have pm: "parse_digits 0 (pad2 (month t)) = Some (month t)"
    using v by (intro parse_pad2) linarith+
  have pd: "parse_digits 0 (pad2 (day t)) = Some (day t)"
    using v d31 by (intro parse_pad2) linarith+
  have pH: "parse_digits 0 (pad2 (hour t)) = Some (hour t)"
    using v by (intro parse_pad2) linarith+
  have pM: "parse_digits 0 (pad2 (minute t)) = Some (minute t)"
    using v by (intro parse_pad2) linarith+
  have pS: "parse_digits 0 (pad2 (second t)) = Some (second t)"
    using v by (intro parse_pad2) linarith+
  have l4: "length (pad4 (year t)) = 4" by (simp add: pad4_def)
  have l2: "\<And>n. length (pad2 n) = 2" by (simp add: pad2_def)
  obtain y1 y2 y3 y4 where Y: "pad4 (year t) = [y1, y2, y3, y4]" by (simp add: pad4_def)
  obtain m1 m2 where m: "pad2 (month t) = [m1, m2]" by (simp add: pad2_def)
  obtain d1 d2 where d: "pad2 (day t) = [d1, d2]" by (simp add: pad2_def)
  obtain H1 H2 where H: "pad2 (hour t) = [H1, H2]" by (simp add: pad2_def)
  obtain M1 M2 where M: "pad2 (minute t) = [M1, M2]" by (simp add: pad2_def)
  obtain S1 S2 where S: "pad2 (second t) = [S1, S2]" by (simp add: pad2_def)
  have s: "strftime t = [y1, y2, y3, y4, CHR ''-'', m1, m2, CHR ''-'', d1, d2, CHR '' '',
      H1, H2, CHR '':'', M1, M2, CHR '':'', S1, S2]"
    by (simp add: strftime_def Y m d H M S)
  have valid': "valid_datetime \<lparr>year = year t, month = month t, day = day t, hour = hour t,
      minute = minute t, second = second t, microsecond = 0, tzinfo = None\<rparr>"
    using v by (simp add: valid_datetime_def)
  have pf: "parse_fields (strftime t)
      = Some (year t, month t, day t, hour t, minute t, second t)"
    unfolding parse_fields_def s
    using pY pm pd pH pM pS unfolding Y m d H M S
    by simp
  have "strptime (strftime t) = Inr \<lparr>year = year t, month = month t, day = day t,
      hour = hour t, minute = minute t, second = second t, microsecond = 0, tzinfo = None\<rparr>"
    unfolding strptime_def pf using valid' unfolding s by simp
  then show ?thesis by simp
qed

lemma strptime_result:
  assumes "strptime s = Inr t"
  shows "valid_datetime t \<and> microsecond t = 0 \<and> tzinfo t = None"
proof (cases "parse_fields s")
  case None
  with assms show ?thesis by (simp add: strptime_def split: if_splits)
next
  case (Some f)
  obtain Y m d H M S where f: "f = (Y, m, d, H, M, S)" by (cases f) auto
  define t' where "t' = \<lparr>year = Y, month = m, day = d, hour = H, minute = M, second = S,
      microsecond = 0, tzinfo = None\<rparr>"
  from assms Some f have "valid_datetime t' \<and> t = t'"
    unfolding strptime_def t'_def by (simp add: Let_def split: if_splits)
  then show ?thesis by (simp add: t'_def)
qed

lemma hms_split:
  fixes s :: int
  assumes "0 \<le> s" "s < 86400"
  shows "0 \<le> s div 3600 \<and> s div 3600 \<le> 23 \<and> 0 \<le> s mod 3600 div 60
    \<and> s mod 3600 div 60 \<le> 59 \<and> 0 \<le> s mod 60 \<and> s mod 60 \<le> 59
    \<and> 3600 * (s div 3600) + 60 * (s mod 3600 div 60) + s mod 60 = s"
proof -
  define h where "h = s div 3600"
  define r1 where "r1 = s mod 3600"
  define mi where "mi = r1 div 60"
  define r2 where "r2 = r1 mod 60"
  have a: "s = 3600 * h + r1" "0 \<le> r1" "r1 < 3600" unfolding h_def r1_def by simp_all
  have b: "r1 = 60 * mi + r2" "0 \<le> r2" "r2 < 60" unfolding mi_def r2_def by simp_all
  have c: "s mod 60 = r2" unfolding r2_def r1_def by (simp add: mod_mod_cancel)
  have "0 \<le> h" "h \<le> 23" using a assms by linarith+
  moreover have "0 \<le> mi" "mi \<le> 59" using a b by linarith+
  moreover have "3600 * h + 60 * mi + r2 = s" using a b by linarith
  ultimately show ?thesis unfolding c using b unfolding h_def mi_def r1_def by simp
qed

lemma us_split:
  fixes delta :: int
  shows "0 \<le> delta mod 86400000000 div 1000000
    \<and> delta mod 86400000000 div 1000000 < 86400
    \<and> 0 \<le> delta mod 1000000 \<and> delta mod 1000000 \<le> 999999
    \<and> delta = 86400000000 * (delta div 86400000000)
        + 1000000 * (delta mod 86400000000 div 1000000) + delta mod 1000000"
proof -
  define D where "D = delta div 86400000000"
  define R where "R = delta mod 86400000000"
  define secs where "secs = R div 1000000"
  define us where "us = R mod 1000000"
  have a: "delta = 86400000000 * D + R" "0 \<le> R" "R < 86400000000"
    unfolding D_def R_def by simp_all
  have b: "R = 1000000 * secs + us" "0 \<le> us" "us < 1000000"
    unfolding secs_def us_def by simp_all
  have c: "delta mod 1000000 = us" unfolding us_def R_def by (simp add: mod_mod_cancel)
  have "0 \<le> secs" "secs < 86400" using a b by linarith+
  moreover have "delta = 86400000000 * D + 1000000 * secs + us" using a b by linarith
  ultimately show ?thesis unfolding c using b unfolding D_def secs_def R_def by simp
qed

lemma mk_timedelta_Inr: "mk_timedelta us = Inr d \<Longrightarrow> d = us"
  by (simp add: mk_timedelta_def split: if_splits)

lemma datetime_add_fields:
  assumes "datetime_add t other = Inr t'"
  obtains delta y m d where
    "delta = total_microseconds t + other"
    "0 < delta div 86400000000"
    "delta div 86400000000 \<le> 3652059"
    "ord2ymd (delta div 86400000000) = (y, m, d)"
    "t' = \<lparr>year = y, month = m, day = d,
           hour = delta mod 86400000000 div 1000000 div 3600,
           minute = delta mod 86400000000 div 1000000 mod 3600 div 60,
           second = delta mod 86400000000 div 1000000 mod 60,
           microsecond = delta mod 1000000, tzinfo = tzinfo t\<rparr>"
proof -
  define delta where "delta = total_microseconds t + other"
  obtain y m d where o: "ord2ymd (delta div 86400000000) = (y, m, d)"
    by (cases "ord2ymd (delta div 86400000000)") auto
  from assms have mk: "mk_timedelta delta = Inr delta"
    unfolding datetime_add_def delta_def[symmetric]
    by (cases "mk_timedelta delta") (auto dest: mk_timedelta_Inr)
  from assms have rng: "0 < delta div 86400000000 \<and> delta div 86400000000 \<le> 3652059"
    unfolding datetime_add_def delta_def[symmetric] mk
    by (simp add: Let_def MAXORDINAL_def split: if_splits)
  from assms rng have "t' = \<lparr>year = y, month = m, day = d,
           hour = delta mod 86400000000 div 1000000 div 3600,
           minute = delta mod 86400000000 div 1000000 mod 3600 div 60,
           second = delta mod 86400000000 div 1000000 mod 60,
           microsecond = delta mod 1000000, tzinfo = tzinfo t\<rparr>"
    unfolding datetime_add_def delta_def[symmetric] mk
    by (simp add: Let_def MAXORDINAL_def o)
  with rng o delta_def show ?thesis using that by blast
qed

lemma datetime_add_valid:
  assumes "datetime_add t other = Inr t'"
  shows "valid_datetime t'"
proof -
  from assms obtain delta y m d where
    rng: "0 < delta div 86400000000" "delta div 86400000000 \<le> 3652059"
    and o: "ord2ymd (delta div 86400000000) = (y, m, d)"
    and t': "t' = \<lparr>year = y, month = m, day = d,
           hour = delta mod 86400000000 div 1000000 div 3600,
           minute = delta mod 86400000000 div 1000000 mod 3600 div 60,
           second = delta mod 86400000000 div 1000000 mod 60,
           microsecond = delta mod 1000000, tzinfo = tzinfo t\<rparr>"
    by (rule datetime_add_fields)
  define secs where "secs = delta mod 86400000000 div 1000000"
  from us_split[of delta] have s0: "0 \<le> secs" "secs < 86400"
    and us: "0 \<le> delta mod 1000000" "delta mod 1000000 \<le> 999999"
    unfolding secs_def by blast+
  note hms = hms_split[OF s0]
  have "1 \<le> delta div 86400000000" using rng by linarith
  note ymd = ord2ymd_valid[OF this rng(2) o]
  show ?thesis
    unfolding t' valid_datetime_def secs_def[symmetric]
    using ymd hms us by simp
qed

lemma datetime_add_tzinfo:
  assumes "datetime_add t other = Inr t'"
  shows "tzinfo t' = tzinfo t"
  using assms by (rule datetime_add_fields) simp

lemma datetime_add_microsecond:
  assumes "datetime_add t other = Inr t'"
  shows "microsecond t' = (microsecond t + other) mod 1000000"
proof -
  have "(total_microseconds t + other) mod 1000000 = (microsecond t + other) mod 1000000"
  proof -
    have "total_microseconds t + other
        = (microsecond t + other)
          + (((toordinal t * 24 + hour t) * 60 + minute t) * 60 + second t) * 1000000"
      unfolding total_microseconds_def by simp
    then show ?thesis by (simp only: mod_mult_self1)
  qed
  moreover from assms have "microsecond t' = (total_microseconds t + other) mod 1000000"
    by (rule datetime_add_fields) simp
  ultimately show ?thesis by simp
qed

lemma datetime_add_total:
  assumes "datetime_add t other = Inr t'"
  shows "total_microseconds t' = total_microseconds t + other"
proof -
  from assms obtain delta y m d where
    delta: "delta = total_microseconds t + other"
    and rng: "0 < delta div 86400000000"
    and o: "ord2ymd (delta div 86400000000) = (y, m, d)"
    and t': "t' = \<lparr>year = y, month = m, day = d,
           hour = delta mod 86400000000 div 1000000 div 3600,
           minute = delta mod 86400000000 div 1000000 mod 3600 div 60,
           second = delta mod 86400000000 div 1000000 mod 60,
           microsecond = delta mod 1000000, tzinfo = tzinfo t\<rparr>"
    by (rule datetime_add_fields)
  define D where "D = delta div 86400000000"
  define secs where "secs = delta mod 86400000000 div 1000000"
  define us where "us = delta mod 1000000"
  define h where "h = secs div 3600"
  define mi where "mi = secs mod 3600 div 60"
  define se where "se = secs mod 60"
  have "1 \<le> D" using rng unfolding D_def by linarith
  from ymd2ord_ord2ymd[OF this] o have ord: "ymd2ord y m d = D"
    unfolding D_def by simp
  from us_split[of delta] have s0: "0 \<le> secs" "secs < 86400"
    and dsum: "delta = 86400000000 * D + 1000000 * secs + us"
    unfolding secs_def D_def us_def by blast+
  from hms_split[OF s0] have hms: "3600 * h + 60 * mi + se = secs"
    unfolding h_def mi_def se_def by blast
  have t'': "t' = \<lparr>year = y, month = m, day = d, hour = h, minute = mi, second = se,
      microsecond = us, tzinfo = tzinfo t\<rparr>"
    unfolding t' h_def mi_def se_def us_def secs_def by (rule refl)
  have "total_microseconds t' = (((D * 24 + h) * 60 + mi) * 60 + se) * 1000000 + us"
    unfolding total_microseconds_def toordinal_def t'' by (simp add: ord)
  also have "\<dots> = 86400000000 * D + 1000000 * (3600 * h + 60 * mi + se) + us"
    by (simp add: algebra_simps)
  also have "\<dots> = delta" unfolding hms using dsum by simp
  finally show ?thesis unfolding delta .
qed

lemma timedelta_minutes_Inr: "timedelta_minutes n = Inr lead \<Longrightarrow> lead = n * 60000000"
  unfolding timedelta_minutes_def by (rule mk_timedelta_Inr)

lemma timedelta_hours_6: "timedelta_hours 6 = Inr 21600000000"
  by (simp add: timedelta_hours_def mk_timedelta_def)

lemma datetime_sub_add:
  assumes "datetime_sub t other = Inr t'"
  shows "datetime_add t (- other) = Inr t'"
proof (cases "mk_timedelta (- other)")
  case (Inl e)
  with assms show ?thesis by (simp add: datetime_sub_def)
next
  case (Inr neg)
  then have "neg = - other" by (rule mk_timedelta_Inr)
  with assms Inr show ?thesis by (simp add: datetime_sub_def)
qed

text \<open>A value that was parsed and then moved by whole seconds prints and parses back.\<close>

lemma strptime_strftime_moved:
  assumes p: "strptime s = Inr t" and a: "datetime_add t (k * 1000000) = Inr t'"
  shows "strptime (strftime t') = Inr t'"
proof -
  from p have t: "microsecond t = 0" "tzinfo t = None" using strptime_result by blast+
  have v: "valid_datetime t'" using a by (rule datetime_add_valid)
  have "microsecond t' = (microsecond t + k * 1000000) mod 1000000"
    using a by (rule datetime_add_microsecond)
  then have m: "microsecond t' = 0" using t by simp
  have z: "tzinfo t' = None" using datetime_add_tzinfo[OF a] t by simp
  have "t'\<lparr>microsecond := 0, tzinfo := None\<rparr> = t'" using m z by simp
  with strptime_strftime[OF v] show ?thesis by simp
qed

lemma estimate_data_availability_Inr:
  assumes "estimate_data_availability pts = Inr das"
  obtains rise avail where "strptime pts = Inr rise"
    "datetime_add rise 21600000000 = Inr avail" "das = strftime avail"
  using assms unfolding estimate_data_availability_def timedelta_hours_6
  by (auto split: sum.splits)

lemma pass_body_cases:
  assumes "pass_body now nt uid (name, pts) (sn, da) w = (r, w')"
  obtains (skip) "r = Inr (sn, da)" "w' = w"
  | (error) e where "r = Inl e" "w' = w"
  | (scheduled) rise fire where
      "interest_match name" "strptime pts = Inr rise"
      "datetime_add rise (- (nt * 60000000)) = Inr fire"
      "strptime (strftime fire) = Inr fire"
      "datetime_gt fire now = Inr True"
      "w' = add_job fire
              (uid, name @ '' will pass over your location at '' @ pts @ '' UTC'') 3600 w"
      "(\<exists>e. r = Inl e) \<or>
       (\<exists>avail. datetime_add rise 21600000000 = Inr avail
          \<and> r = Inr (sn @ [(name, strftime fire)], da @ [(name, strftime avail)]))"
proof (cases "interest_match name")
  case False
  with assms have "r = Inr (sn, da)" "w' = w" by (simp_all add: pass_body_def)
  then show ?thesis by (rule skip)
next
  case im: True
  show ?thesis
  proof (cases "strptime pts")
    case (Inl e)
    with assms im have "r = Inl e" "w' = w" by (simp_all add: pass_body_def)
    then show ?thesis by (rule error)
  next
    case rise: (Inr rise)
    show ?thesis
    proof (cases "timedelta_minutes nt")
      case (Inl e)
      with assms im rise have "r = Inl e" "w' = w" by (simp_all add: pass_body_def)
      then show ?thesis by (rule error)
    next
      case lead: (Inr lead)
      then have lead_eq: "lead = nt * 60000000" by (rule timedelta_minutes_Inr)
      show ?thesis
      proof (cases "datetime_sub rise lead")
        case (Inl e)
        with assms im rise lead have "r = Inl e" "w' = w" by (simp_all add: pass_body_def)
        then show ?thesis by (rule error)
      next
        case fire: (Inr fire)
        then have add: "datetime_add rise (- (nt * 60000000)) = Inr fire"
          unfolding lead_eq by (rule datetime_sub_add)
        have eqk: "- (nt * 60000000) = (- nt * 60) * 1000000" by simp
        have "datetime_add rise ((- nt * 60) * 1000000) = Inr fire"
          using add unfolding eqk .
        with rise have rt: "strptime (strftime fire) = Inr fire"
          by (rule strptime_strftime_moved)
        show ?thesis
        proof (cases "datetime_gt fire now")
          case (Inl e)
          with assms im rise lead fire have "r = Inl e" "w' = w"
            by (simp_all add: pass_body_def)
          then show ?thesis by (rule error)
        next
          case gt: (Inr b)
          show ?thesis
          proof (cases b)
            case False
            with assms im rise lead fire gt have "r = Inr (sn, da)" "w' = w"
              by (simp_all add: pass_body_def)
            then show ?thesis by (rule skip)
          next
            case True
            let ?msg = "name @ '' will pass over your location at '' @ pts @ '' UTC''"
            have sched: "schedule_notification (strftime fire) uid ?msg w
                = (Inr (), add_job fire (uid, ?msg) 3600 w)"
              by (simp add: schedule_notification_def rt)
            show ?thesis
            proof (cases "estimate_data_availability pts")
              case (Inl e)
              with assms im rise lead fire gt True sched
              have "r = Inl e" "w' = add_job fire (uid, ?msg) 3600 w"
                by (simp_all add: pass_body_def Let_def)
              with im rise add rt gt True show ?thesis by (intro scheduled) auto
            next
              case (Inr das)
              then obtain rise' avail where "strptime pts = Inr rise'"
                "datetime_add rise' 21600000000 = Inr avail" "das = strftime avail"
                by (rule estimate_data_availability_Inr)
              with rise have av: "datetime_add rise 21600000000 = Inr avail"
                "das = strftime avail" by simp_all
              from assms im rise lead fire gt True sched Inr
              have "r = Inr (sn @ [(name, strftime fire)], da @ [(name, das)])"
                "w' = add_job fire (uid, ?msg) 3600 w"
                by (simp_all add: pass_body_def Let_def)
              with im rise add rt gt True av show ?thesis by (intro scheduled) auto
            qed
          qed
        qed
      qed
    qed
  qed
qed

text \<open>
  An invariant of the loop: \<open>Q\<close> holds of the two lists and the world whenever an
  iteration ends normally, \<open>E\<close> of the world when one raises.
\<close>

lemma schedule_passes_rule:
  assumes run: "schedule_passes now nt uid ps acc w = (r, w')"
    and base: "Q acc w"
    and step: "\<And>p acc1 w1 r2 w2. p \<in> set ps \<Longrightarrow> Q acc1 w1
        \<Longrightarrow> pass_body now nt uid p acc1 w1 = (r2, w2)
        \<Longrightarrow> (case r2 of Inl e \<Rightarrow> E w2 | Inr acc2 \<Rightarrow> Q acc2 w2)"
  shows "case r of Inl e \<Rightarrow> E w' | Inr acc' \<Rightarrow> Q acc' w'"
  using run base step
proof (induction ps arbitrary: acc w)
  case Nil
  then show ?case by auto
next
  case (Cons p ps)
  obtain r2 w2 where pb: "pass_body now nt uid p acc w = (r2, w2)"
    by (cases "pass_body now nt uid p acc w") auto
  have st: "case r2 of Inl e \<Rightarrow> E w2 | Inr acc2 \<Rightarrow> Q acc2 w2"
    using Cons.prems(3)[OF _ Cons.prems(2) pb] by simp
  show ?case
  proof (cases r2)
    case (Inl e)
    with Cons.prems(1) pb have "r = Inl e" "w' = w2" by simp_all
    with st Inl show ?thesis by simp
  next
    case (Inr acc2)
    with Cons.prems(1) pb have run2: "schedule_passes now nt uid ps acc2 w2 = (r, w')"
      by simp
    from st Inr have q2: "Q acc2 w2" by simp
    show ?thesis
      by (rule Cons.IH[OF run2 q2]) (rule Cons.prems(3), simp_all)
  qed
qed

lemma first_rise_find:
  "first_rise evs = map_option fst (find (\<lambda>(ti, event). event = 0) evs)"
  by (induction evs rule: first_rise.induct) auto

lemma passes_loop_map_filter:
  "passes_loop satellites next_passes =
     next_passes @ List.map_filter
       (\<lambda>(name, evs). map_option (\<lambda>(ti, event). (name, strftime ti))
          (find (\<lambda>(ti, event). event = 0) evs)) satellites"
proof (induction satellites arbitrary: next_passes)
  case Nil
  then show ?case by (simp add: List.map_filter_simps)
next
  case (Cons sat satellites)
  obtain name evs where sat: "sat = (name, evs)" by (cases sat)
  show ?case
  proof (cases "find (\<lambda>(ti, event). event = 0) evs")
    case None
    then show ?thesis
      by (simp add: sat Cons.IH first_rise_find List.map_filter_simps)
  next
    case (Some te)
    then show ?thesis
      by (cases te) (simp add: sat Cons.IH first_rise_find List.map_filter_simps)
  qed
qed

lemma strftime_truncate_seconds: "strftime (truncate_seconds t) = strftime t"
  by (simp add: strftime_def truncate_seconds_def)

lemma pass_body_scheduled:
  assumes im: "interest_match name"
    and rise: "strptime pts = Inr rise"
    and lead: "timedelta_minutes nt = Inr lead"
    and fire: "datetime_sub rise lead = Inr fire"
    and gt: "datetime_gt fire now = Inr True"
    and avail: "datetime_add rise 21600000000 = Inr avail"
  shows "pass_body now nt uid (name, pts) (sn, da) w
    = (Inr (sn @ [(name, strftime fire)], da @ [(name, strftime avail)]),
       add_job fire
         (uid, name @ '' will pass over your location at '' @ pts @ '' UTC'') 3600 w)"
proof -
  have lead_eq: "lead = nt * 60000000" using lead by (rule timedelta_minutes_Inr)
  have add: "datetime_add rise (- (nt * 60000000)) = Inr fire"
    using fire unfolding lead_eq by (rule datetime_sub_add)
  have eqk: "- (nt * 60000000) = (- nt * 60) * 1000000" by simp
  have "datetime_add rise ((- nt * 60) * 1000000) = Inr fire" using add unfolding eqk .
  with rise have rt: "strptime (strftime fire) = Inr fire" by (rule strptime_strftime_moved)
  have est: "estimate_data_availability pts = Inr (strftime avail)"
    by (simp add: estimate_data_availability_def rise timedelta_hours_6 avail)
  show ?thesis
    by (simp add: pass_body_def im rise lead fire gt Let_def schedule_notification_def rt est)
qed

lemma pass_body_dropped:
  assumes rise: "strptime pts = Inr rise"
    and lead: "timedelta_minutes nt = Inr lead"
    and fire: "datetime_sub rise lead = Inr fire"
    and gt: "datetime_gt fire now = Inr False"
  shows "pass_body now nt uid (name, pts) acc w = (Inr acc, w)"
  by (simp add: pass_body_def rise lead fire gt split: prod.splits)

lemma add_job_simps:
  "jobs (add_job rd a g w) = jobs w @
     [\<lparr>job_id = length (jobs w), run_date = rd, args = a, misfire_grace_time = g,
       state = Pending\<rparr>]"
  "outbox (add_job rd a g w) = outbox w"
  "rendered (add_job rd a g w) = rendered w"
  by (simp_all add: add_job_def)

text \<open>What the loop does to the world: it only appends pending jobs due after now.\<close>

lemma schedule_passes_world:
  fixes w0 :: "'f world"
  assumes run: "schedule_passes now nt uid ps (sn0, da0) w0 = (r, w')"
  shows "\<exists>new. jobs w' = jobs w0 @ new
      \<and> (\<forall>j\<in>set new. datetime_gt (run_date j) now = Inr True
            \<and> misfire_grace_time j = 3600 \<and> state j = Pending \<and> fst (args j) = uid)
      \<and> outbox w' = outbox w0 \<and> rendered w' = rendered w0
      \<and> (\<forall>sn da. r = Inr (sn, da) \<longrightarrow>
            length sn = length sn0 + length new \<and> length da = length da0 + length new)"
proof -
  define P :: "job \<Rightarrow> bool" where "P = (\<lambda>j. datetime_gt (run_date j) now = Inr True
            \<and> misfire_grace_time j = 3600 \<and> state j = Pending \<and> fst (args j) = uid)"
  define E where "E = (\<lambda>w :: 'f world. \<exists>new. jobs w = jobs w0 @ new \<and> (\<forall>j\<in>set new. P j)
      \<and> outbox w = outbox w0 \<and> rendered w = rendered w0)"
  define Q where "Q = (\<lambda>(acc :: lists) (w :: 'f world).
      \<exists>new. jobs w = jobs w0 @ new \<and> (\<forall>j\<in>set new. P j)
      \<and> outbox w = outbox w0 \<and> rendered w = rendered w0
      \<and> length (fst acc) = length sn0 + length new
      \<and> length (snd acc) = length da0 + length new)"
  have base: "Q (sn0, da0) w0" unfolding Q_def by simp
  have step: "case r2 of Inl e \<Rightarrow> E w2 | Inr acc2 \<Rightarrow> Q acc2 w2"
    if q: "Q acc1 w1" and pb: "pass_body now nt uid p acc1 w1 = (r2, w2)"
    for p acc1 w1 r2 w2
  proof -
    obtain name pts where p: "p = (name, pts)" by (cases p)
    obtain sn da where acc1: "acc1 = (sn, da)" by (cases acc1)
    from q obtain new where new: "jobs w1 = jobs w0 @ new" "\<forall>j\<in>set new. P j"
      "outbox w1 = outbox w0" "rendered w1 = rendered w0"
      "length sn = length sn0 + length new" "length da = length da0 + length new"
      unfolding Q_def acc1 by auto
    from pb[unfolded p acc1] show ?thesis
    proof (cases rule: pass_body_cases)
      case skip
      with new show ?thesis unfolding Q_def by auto
    next
      case (error e)
      with new show ?thesis unfolding E_def by auto
    next
      case (scheduled rise fire)
      let ?j = "\<lparr>job_id = length (jobs w1), run_date = fire,
        args = (uid, name @ '' will pass over your location at '' @ pts @ '' UTC''),
        misfire_grace_time = 3600, state = Pending\<rparr>"
      have j: "P ?j" unfolding P_def using scheduled(5) by simp
      have w2: "jobs w2 = jobs w0 @ (new @ [?j])" "outbox w2 = outbox w0"
        "rendered w2 = rendered w0"
        using scheduled(6) new by (simp_all add: add_job_simps)
      have all: "\<forall>j\<in>set (new @ [?j]). P j" using new(2) j by simp
      from scheduled(7) show ?thesis
      proof
        assume "\<exists>e. r2 = Inl e"
        then obtain e where "r2 = Inl e" by blast
        with w2 all show ?thesis unfolding E_def by auto
      next
        assume "\<exists>avail. datetime_add rise 21600000000 = Inr avail \<and>
          r2 = Inr (sn @ [(name, strftime fire)], da @ [(name, strftime avail)])"
        then obtain avail where
          r2: "r2 = Inr (sn @ [(name, strftime fire)], da @ [(name, strftime avail)])"
          by blast
        have "Q (sn @ [(name, strftime fire)], da @ [(name, strftime avail)]) w2"
          unfolding Q_def
          apply (simp only: prod.case fst_conv snd_conv)
          apply (rule exI[of _ "new @ [?j]"])
          using w2 all new(5,6) by simp
        with r2 show ?thesis by simp
      qed
    qed
  qed
  have res: "case r of Inl e \<Rightarrow> E w' | Inr acc' \<Rightarrow> Q acc' w'"
  proof (rule schedule_passes_rule[where Q = Q and E = E, OF run base])
    fix p acc1 w1 r2 w2
    assume "Q acc1 w1" "pass_body now nt uid p acc1 w1 = (r2, w2)"
    then show "case r2 of Inl e \<Rightarrow> E w2 | Inr acc2 \<Rightarrow> Q acc2 w2" by (rule step)
  qed
  show ?thesis
  proof (cases r)
    case (Inl e)
    with res have "E w'" by simp
    then show ?thesis unfolding E_def P_def using Inl by auto
  next
    case (Inr acc')
    with res have "Q acc' w'" by simp
    then show ?thesis unfolding Q_def P_def using Inr by auto
  qed
qed

text \<open>
  What the loop appends to its two lists: for some passes of the input, in step,
  the notification time and the data availability of the pass.
\<close>

lemma schedule_passes_lists:
  fixes w0 :: "'f world"
  assumes run: "schedule_passes now nt uid ps (sn0, da0) w0 = (Inr (sn, da), w')"
  shows "\<exists>ems. sn = sn0 @ map (\<lambda>(name, fire, avail). (name, strftime fire)) ems
      \<and> da = da0 @ map (\<lambda>(name, fire, avail). (name, strftime avail)) ems
      \<and> (\<forall>(name, fire, avail)\<in>set ems. \<exists>pts rise.
            (name, pts) \<in> set ps \<and> interest_match name \<and> strptime pts = Inr rise
            \<and> datetime_add rise (- (nt * 60000000)) = Inr fire
            \<and> strptime (strftime fire) = Inr fire
            \<and> datetime_gt fire now = Inr True
            \<and> datetime_add rise 21600000000 = Inr avail)"
proof -
  define ok :: "string \<times> datetime \<times> datetime \<Rightarrow> bool" where
    "ok = (\<lambda>(name, fire, avail). \<exists>pts rise.
            (name, pts) \<in> set ps \<and> interest_match name \<and> strptime pts = Inr rise
            \<and> datetime_add rise (- (nt * 60000000)) = Inr fire
            \<and> strptime (strftime fire) = Inr fire
            \<and> datetime_gt fire now = Inr True
            \<and> datetime_add rise 21600000000 = Inr avail)"
  define Q where "Q = (\<lambda>(acc :: lists) (w :: 'f world).
      \<exists>ems. fst acc = sn0 @ map (\<lambda>(name, fire, avail). (name, strftime fire)) ems
      \<and> snd acc = da0 @ map (\<lambda>(name, fire, avail). (name, strftime avail)) ems
      \<and> (\<forall>em\<in>set ems. ok em))"
  have base: "Q (sn0, da0) w0" unfolding Q_def by (auto intro: exI[of _ "[]"])
  have step: "case r2 of Inl e \<Rightarrow> True | Inr acc2 \<Rightarrow> Q acc2 w2"
    if mem: "p \<in> set ps" and q: "Q acc1 w1"
      and pb: "pass_body now nt uid p acc1 w1 = (r2, w2)"
    for p acc1 w1 r2 w2
  proof -
    obtain name pts where p: "p = (name, pts)" by (cases p)
    obtain sn1 da1 where acc1: "acc1 = (sn1, da1)" by (cases acc1)
    from q obtain ems where ems:
      "sn1 = sn0 @ map (\<lambda>(name, fire, avail). (name, strftime fire)) ems"
      "da1 = da0 @ map (\<lambda>(name, fire, avail). (name, strftime avail)) ems"
      "\<forall>em\<in>set ems. ok em"
      unfolding Q_def acc1 by auto
    from pb[unfolded p acc1] show ?thesis
    proof (cases rule: pass_body_cases)
      case skip
      with q acc1 show ?thesis by simp
    next
      case (error e)
      then show ?thesis by simp
    next
      case (scheduled rise fire)
      from scheduled(7) show ?thesis
      proof
        assume "\<exists>e. r2 = Inl e"
        then show ?thesis by auto
      next
        assume "\<exists>avail. datetime_add rise 21600000000 = Inr avail \<and>
          r2 = Inr (sn1 @ [(name, strftime fire)], da1 @ [(name, strftime avail)])"
        then obtain avail where av: "datetime_add rise 21600000000 = Inr avail"
          and r2: "r2 = Inr (sn1 @ [(name, strftime fire)], da1 @ [(name, strftime avail)])"
          by blast
        have okn: "ok (name, fire, avail)"
          unfolding ok_def using mem p scheduled(1-5) av by auto
        have "Q (sn1 @ [(name, strftime fire)], da1 @ [(name, strftime avail)]) w2"
          unfolding Q_def
          apply (simp only: prod.case fst_conv snd_conv)
          apply (rule exI[of _ "ems @ [(name, fire, avail)]"])
          using ems okn by simp
        with r2 show ?thesis by simp
      qed
    qed
  qed
  have res: "case (Inr (sn, da) :: py_error + lists) of Inl e \<Rightarrow> True | Inr acc' \<Rightarrow> Q acc' w'"
  proof (rule schedule_passes_rule[where Q = Q and E = "\<lambda>w. True", OF run base])
    fix p acc1 w1 r2 w2
    assume "p \<in> set ps" "Q acc1 w1" "pass_body now nt uid p acc1 w1 = (r2, w2)"
    then show "case r2 of Inl e \<Rightarrow> True | Inr acc2 \<Rightarrow> Q acc2 w2" by (rule step)
  qed
  then have "Q (sn, da) w'" by simp
  then show ?thesis unfolding Q_def ok_def by auto
qed

lemma home_cases:
  assumes "home e req w = (resp, w')"
  obtains (get) "req_method req \<noteq> POST" "resp = HomePage" "w' = w"
  | (invalid) err where "req_method req = POST" "parse_form e req = Inl err"
      "resp = ErrorPage (ExceptionText err)" "w' = w"
  | (raised) latitude longitude nt uid err where "req_method req = POST"
      "parse_form e req = Inr (latitude, longitude, nt, uid)"
      "schedule_passes (utcnow e) nt uid (get_next_pass_times e latitude longitude) ([], [])
         (send_confirmation_email uid w) = (Inl err, w')"
      "resp = ErrorPage (ExceptionText err)"
  | (no_passes) latitude longitude nt uid da where "req_method req = POST"
      "parse_form e req = Inr (latitude, longitude, nt, uid)"
      "schedule_passes (utcnow e) nt uid (get_next_pass_times e latitude longitude) ([], [])
         (send_confirmation_email uid w) = (Inr ([], da), w')"
      "resp = ErrorPage NoFuturePasses"
  | (confirmed) latitude longitude nt uid sn da w2 where "req_method req = POST"
      "parse_form e req = Inr (latitude, longitude, nt, uid)"
      "schedule_passes (utcnow e) nt uid (get_next_pass_times e latitude longitude) ([], [])
         (send_confirmation_email uid w) = (Inr (sn, da), w2)"
      "sn \<noteq> []" "resp = ConfirmationPage sn da uid"
      "w' = display_grid_on_map latitude longitude w2"
proof (cases "req_method req = POST")
  case False
  with assms have "resp = HomePage" "w' = w" by (simp_all add: home_def)
  with False show ?thesis by (rule get)
next
  case post: True
  show ?thesis
  proof (cases "parse_form e req")
    case (Inl err)
    with assms post have "resp = ErrorPage (ExceptionText err)" "w' = w"
      by (simp_all add: home_def home_post_def)
    with post Inl show ?thesis by (rule invalid)
  next
    case (Inr f)
    obtain latitude longitude nt uid where f: "f = (latitude, longitude, nt, uid)"
      by (cases f) auto
    note pf = Inr[unfolded f]
    obtain r w2 where sp:
      "schedule_passes (utcnow e) nt uid (get_next_pass_times e latitude longitude) ([], [])
         (send_confirmation_email uid w) = (r, w2)"
      by (cases "schedule_passes (utcnow e) nt uid (get_next_pass_times e latitude longitude)
         ([], []) (send_confirmation_email uid w)") auto
    show ?thesis
    proof (cases r)
      case (Inl err)
      with assms post pf sp have "resp = ErrorPage (ExceptionText err)" "w' = w2"
        by (simp_all add: home_def home_post_def Let_def)
      with post pf sp Inl show ?thesis by (intro raised) auto
    next
      case (Inr acc)
      obtain sn da where acc: "acc = (sn, da)" by (cases acc)
      show ?thesis
      proof (cases "sn = []")
        case True
        with assms post pf sp Inr acc have "resp = ErrorPage NoFuturePasses" "w' = w2"
          by (simp_all add: home_def home_post_def Let_def)
        with post pf sp Inr acc True show ?thesis by (intro no_passes) auto
      next
        case False
        with assms post pf sp Inr acc have "resp = ConfirmationPage sn da uid"
          "w' = display_grid_on_map latitude longitude w2"
          by (simp_all add: home_def home_post_def Let_def)
        with post pf sp Inr acc False show ?thesis by (intro confirmed) auto
      qed
    qed
  qed
qed

lemma fold_send_notification:
  "jobs (fold (\<lambda>j. send_notification (fst (args j)) (snd (args j))) js w) = jobs w
   \<and> rendered (fold (\<lambda>j. send_notification (fst (args j)) (snd (args j))) js w) = rendered w
   \<and> outbox (fold (\<lambda>j. send_notification (fst (args j)) (snd (args j))) js w)
      = outbox w @ map (\<lambda>j. notification_email (fst (args j)) (snd (args j))) js"
  by (induction js arbitrary: w) (simp_all add: send_notification_def)

lemma dispatch_simps:
  "jobs (dispatch now w) = map (job_transition now) (jobs w)"
  "rendered (dispatch now w) = rendered w"
  "outbox (dispatch now w) = outbox w
     @ map (\<lambda>j. notification_email (fst (args j)) (snd (args j)))
         (filter (job_fires now) (jobs w))"
  by (simp_all add: dispatch_def fold_send_notification)

lemma job_transition_args: "args (job_transition now j) = args j"
  by (simp add: job_transition_def)

text \<open>A terminal state is never left, and a job in one never fires.\<close>

lemma job_run_terminal: "state j \<noteq> Pending \<Longrightarrow> job_run ticks j k = (j, k)"
  by (induction ticks arbitrary: k) (simp_all add: job_transition_def job_fires_def)

lemma job_run_early:
  assumes "\<forall>p\<in>set earlier. lateness p j < 0" and "0 \<le> misfire_grace_time j"
  shows "job_run (earlier @ rest) j k = job_run rest j k"
  using assms
  by (induction earlier arbitrary: k) (simp_all add: job_transition_def job_fires_def)

lemma job_run_fire:
  assumes "state j = Pending" "0 \<le> lateness t j"
    "lateness t j \<le> misfire_grace_time j * 1000000"
  shows "job_run (t # later) j k = (j\<lparr>state := Fired\<rparr>, Suc k)"
  using assms by (simp add: job_transition_def job_fires_def job_run_terminal)

lemma job_run_expire:
  assumes "state j = Pending" "lateness t j > misfire_grace_time j * 1000000"
  shows "job_run (t # later) j k = (j\<lparr>state := Expired\<rparr>, k)"
  using assms by (simp add: job_transition_def job_fires_def job_run_terminal)

text \<open>
  Jobs are independent: a world with one more job runs like the world without
  it, plus the life of that job.
\<close>

lemma run_dispatcher_extra_job:
  assumes "jobs w1 = jobs w @ [j]"
    and "mset (outbox w1) = mset (outbox w)
           + replicate_mset k (notification_email (fst (args j)) (snd (args j)))"
  shows "jobs (run_dispatcher ticks w1)
           = jobs (run_dispatcher ticks w) @ [fst (job_run ticks j k)]
       \<and> mset (outbox (run_dispatcher ticks w1))
           = mset (outbox (run_dispatcher ticks w))
             + replicate_mset (snd (job_run ticks j k))
                 (notification_email (fst (args j)) (snd (args j)))"
  using assms
proof (induction ticks arbitrary: w1 w j k)
  case Nil
  then show ?case by (simp add: run_dispatcher_def)
next
  case (Cons now ticks)
  let ?mail = "notification_email (fst (args j)) (snd (args j))"
  let ?j' = "job_transition now j"
  let ?k' = "if job_fires now j then Suc k else k"
  have j1: "jobs (dispatch now w1) = jobs (dispatch now w) @ [?j']"
    using Cons.prems(1) by (simp add: dispatch_simps)
  have o1: "mset (outbox (dispatch now w1)) = mset (outbox (dispatch now w))
           + replicate_mset ?k' (notification_email (fst (args ?j')) (snd (args ?j')))"
    using Cons.prems by (simp add: dispatch_simps job_transition_args)
  from Cons.IH[OF j1 o1] show ?case
    by (simp add: run_dispatcher_def job_transition_args)
qed

lemma schedule_notification_parsed:
  assumes "strptime s = Inr T"
  shows "schedule_notification s uid msg w = (Inr (), add_job T (uid, msg) 3600 w)"
  by (simp add: schedule_notification_def assms)

text \<open>The life of the job that \<open>schedule_notification\<close> adds, in any world.\<close>

lemma scheduled_job_life:
  fixes w :: "'f world"
  assumes early: "\<forall>p\<in>set earlier. total_microseconds p < total_microseconds T"
    and w1: "jobs w1 = jobs w @ [j]" "mset (outbox w1) = mset (outbox w)"
    and j: "run_date j = T" "misfire_grace_time j = 3600" "state j = Pending"
  shows "(0 \<le> total_microseconds t - total_microseconds T
          \<and> total_microseconds t - total_microseconds T \<le> 3600 * 1000000 \<longrightarrow>
            jobs (run_dispatcher (earlier @ t # later) w1)
              = jobs (run_dispatcher (earlier @ t # later) w) @ [j\<lparr>state := Fired\<rparr>]
          \<and> mset (outbox (run_dispatcher (earlier @ t # later) w1))
              = mset (outbox (run_dispatcher (earlier @ t # later) w))
                + {#notification_email (fst (args j)) (snd (args j))#})
       \<and> (total_microseconds t - total_microseconds T > 3600 * 1000000 \<longrightarrow>
            jobs (run_dispatcher (earlier @ t # later) w1)
              = jobs (run_dispatcher (earlier @ t # later) w) @ [j\<lparr>state := Expired\<rparr>]
          \<and> mset (outbox (run_dispatcher (earlier @ t # later) w1))
              = mset (outbox (run_dispatcher (earlier @ t # later) w)))"
proof -
  let ?ticks = "earlier @ t # later"
  have e: "\<forall>p\<in>set earlier. lateness p j < 0"
    using early j(1) by (simp add: lateness_def)
  have g: "0 \<le> misfire_grace_time j" using j(2) by simp
  have run: "job_run ?ticks j 0 = job_run (t # later) j 0"
    using e g by (rule job_run_early)
  have late: "lateness t j = total_microseconds t - total_microseconds T"
    using j(1) by (simp add: lateness_def)
  have o: "mset (outbox w1) = mset (outbox w)
      + replicate_mset 0 (notification_email (fst (args j)) (snd (args j)))"
    using w1(2) by simp
  note link = run_dispatcher_extra_job[OF w1(1) o, of ?ticks]
  have fire: "job_run ?ticks j 0 = (j\<lparr>state := Fired\<rparr>, Suc 0)"
    if "0 \<le> total_microseconds t - total_microseconds T"
      "total_microseconds t - total_microseconds T \<le> 3600 * 1000000"
    unfolding run using that j(2,3) late by (intro job_run_fire) simp_all
  have expire: "job_run ?ticks j 0 = (j\<lparr>state := Expired\<rparr>, 0)"
    if "total_microseconds t - total_microseconds T > 3600 * 1000000"
    unfolding run using that j(2,3) late by (intro job_run_expire) simp_all
  show ?thesis using link fire expire by auto
qed

section \<open>The claims\<close>

text \<open>
  C3. The interest test holds exactly when the satellite name, stripped of
  surrounding whitespace and upper-cased, has \<open>LANDSAT 8\<close> or \<open>LANDSAT 9\<close> as a
  substring. \<open>landsat 9 \<close> (with a trailing space) and \<open>LANDSAT 9 (PRIME)\<close>
  pass it, \<open>LANDSAT 7\<close> does not. The loop keeps a pass by this test: a pass
  whose notification time is after now is scheduled and reported when its
  satellite passes the test, and leaves the two lists and the scheduler as they
  were when it does not (as every pass of such a satellite does); and every
  satellite reported on the confirmation page passes the test.
\<close>

theorem interest_match_substring:
  "(interest_match name \<longleftrightarrow>
      (\<exists>pre suf. py_upper (py_strip name) = pre @ ''LANDSAT 8'' @ suf
                \<or> py_upper (py_strip name) = pre @ ''LANDSAT 9'' @ suf))
   \<and> interest_match ''landsat 9 ''
   \<and> py_upper (py_strip ''landsat 9 '') = ''LANDSAT 9''
   \<and> interest_match ''LANDSAT 9 (PRIME)''
   \<and> \<not> interest_match ''LANDSAT 7''
   \<and> (\<not> interest_match name \<longrightarrow>
        pass_body now notification_time user_id (name, pass_time_str) acc w = (Inr acc, w))
   \<and> (strptime pass_time_str = Inr rise \<and> timedelta_minutes notification_time = Inr lead
        \<and> datetime_sub rise lead = Inr fire \<and> datetime_gt fire now = Inr True
        \<and> datetime_add rise 21600000000 = Inr avail
      \<longrightarrow> pass_body now notification_time user_id (name, pass_time_str) (sn, da) w
          = (if interest_match name
             then (Inr (sn @ [(name, strftime fire)], da @ [(name, strftime avail)]),
                   add_job fire
                     (user_id, name @ '' will pass over your location at ''
                               @ pass_time_str @ '' UTC'')
                     3600 w)
             else (Inr (sn, da), w)))
   \<and> (home e req w0 = (ConfirmationPage sn' da' u, w') \<longrightarrow>
        (\<forall>(name', s)\<in>set sn'. interest_match name'))"
proof -
  have a: "interest_match name \<longleftrightarrow>
      (\<exists>pre suf. py_upper (py_strip name) = pre @ ''LANDSAT 8'' @ suf
                \<or> py_upper (py_strip name) = pre @ ''LANDSAT 9'' @ suf)"
    unfolding interest_match_def Let_def py_in_iff by blast
  have b: "interest_match ''landsat 9 ''" by code_simp
  have c: "py_upper (py_strip ''landsat 9 '') = ''LANDSAT 9''" by code_simp
  have d: "interest_match ''LANDSAT 9 (PRIME)''" by code_simp
  have e: "\<not> interest_match ''LANDSAT 7''" by code_simp
  have f: "\<not> interest_match name \<longrightarrow>
        pass_body now notification_time user_id (name, pass_time_str) acc w = (Inr acc, w)"
    by (simp add: pass_body_def split: prod.splits)
  have g: "pass_body now notification_time user_id (name, pass_time_str) (sn, da) w
          = (if interest_match name
             then (Inr (sn @ [(name, strftime fire)], da @ [(name, strftime avail)]),
                   add_job fire
                     (user_id, name @ '' will pass over your location at ''
                               @ pass_time_str @ '' UTC'')
                     3600 w)
             else (Inr (sn, da), w))"
    if h: "strptime pass_time_str = Inr rise" "timedelta_minutes notification_time = Inr lead"
      "datetime_sub rise lead = Inr fire" "datetime_gt fire now = Inr True"
      "datetime_add rise 21600000000 = Inr avail"
  proof (cases "interest_match name")
    case True
    from pass_body_scheduled[OF True h] True show ?thesis by simp
  next
    case False
    then show ?thesis by (simp add: pass_body_def)
  qed
  have i: "\<forall>(name', s)\<in>set sn'. interest_match name'"
    if h: "home e req w0 = (ConfirmationPage sn' da' u, w')"
    using h
  proof (cases rule: home_cases)
    case (confirmed latitude longitude nt uid sn1 da1 w2)
    then have eq: "sn1 = sn'" by simp
    from schedule_passes_lists[OF confirmed(3)] obtain ems where
      sn0: "sn1 = [] @ map (\<lambda>(name, fire, avail). (name, strftime fire)) ems"
      and ok0: "\<forall>(name, fire, avail)\<in>set ems. \<exists>pts rise.
            (name, pts) \<in> set (get_next_pass_times e latitude longitude)
            \<and> interest_match name \<and> strptime pts = Inr rise
            \<and> datetime_add rise (- (nt * 60000000)) = Inr fire
            \<and> strptime (strftime fire) = Inr fire
            \<and> datetime_gt fire (utcnow e) = Inr True
            \<and> datetime_add rise 21600000000 = Inr avail"
      by blast
    have sn: "sn' = map (\<lambda>(name, fire, avail). (name, strftime fire)) ems"
      using sn0 eq by simp
    have ok: "\<forall>(name, fire, avail)\<in>set ems. interest_match name"
      using ok0 by fast
    show ?thesis unfolding sn using ok by fastforce
  qed simp_all
  from a b c d e f g i show ?thesis by blast
qed

theorem interest_match_substring_witness:
  "\<not> interest_match ''NOAA 19''
   \<and> pass_body example_now 30 ''user@example.org''
        (''NOAA 19'', ''2030-01-01 02:00:00'') ([], []) empty_world
      = (Inr ([], []), empty_world)
   \<and> interest_match ''landsat 9 ''
   \<and> pass_body example_now 30 ''user@example.org''
        (''landsat 9 '', ''2030-01-01 10:00:00'') ([], []) empty_world
      = (Inr ([(''landsat 9 '', ''2030-01-01 09:30:00'')],
              [(''landsat 9 '', ''2030-01-01 16:00:00'')]),
         add_job \<lparr>year = 2030, month = 1, day = 1, hour = 9, minute = 30, second = 0,
                   microsecond = 0, tzinfo = None\<rparr>
           (''user@example.org'',
            ''landsat 9  will pass over your location at 2030-01-01 10:00:00 UTC'')
           3600 empty_world)
   \<and> home example_env example_request empty_world
      = (ConfirmationPage [(''LANDSAT 8'', ''2030-01-01 09:30:00'')]
           [(''LANDSAT 8'', ''2030-01-01 16:00:00'')] ''user@example.org'',
         snd (home example_env example_request empty_world))
   \<and> interest_match ''LANDSAT 8''"
proof -
  let ?rise = "\<lparr>year = 2030, month = 1, day = 1, hour = 10, minute = 0, second = 0,
                  microsecond = 0, tzinfo = None\<rparr>"
  let ?fire = "\<lparr>year = 2030, month = 1, day = 1, hour = 9, minute = 30, second = 0,
                  microsecond = 0, tzinfo = None\<rparr>"
  let ?avail = "\<lparr>year = 2030, month = 1, day = 1, hour = 16, minute = 0, second = 0,
                   microsecond = 0, tzinfo = None\<rparr>"
  let ?h = "home example_env example_request empty_world"
  let ?sn = "[(''LANDSAT 8'', ''2030-01-01 09:30:00'')]"
  let ?da = "[(''LANDSAT 8'', ''2030-01-01 16:00:00'')]"
  have n: "\<not> interest_match ''NOAA 19''" by code_simp
  from interest_match_substring[of "''NOAA 19''" example_now 30 "''user@example.org''"
      "''2030-01-01 02:00:00''" "([], [])" empty_world] n
  have a: "pass_body example_now 30 ''user@example.org''
        (''NOAA 19'', ''2030-01-01 02:00:00'') ([], []) empty_world
      = (Inr ([], []), empty_world)" by blast
  have m: "interest_match ''landsat 9 ''" by code_simp
  have p: "strptime ''2030-01-01 10:00:00'' = Inr ?rise" by code_simp
  have l: "timedelta_minutes 30 = Inr 1800000000" by code_simp
  have s: "datetime_sub ?rise 1800000000 = Inr ?fire" by code_simp
  have g: "datetime_gt ?fire example_now = Inr True" by code_simp
  have v: "datetime_add ?rise 21600000000 = Inr ?avail" by code_simp
  have sf: "strftime ?fire = ''2030-01-01 09:30:00''" by code_simp
  have sa: "strftime ?avail = ''2030-01-01 16:00:00''" by code_simp
  have b0: "pass_body example_now 30 ''user@example.org''
        (''landsat 9 '', ''2030-01-01 10:00:00'') ([], []) empty_world
      = (if interest_match ''landsat 9 ''
         then (Inr ([] @ [(''landsat 9 '', strftime ?fire)],
                    [] @ [(''landsat 9 '', strftime ?avail)]),
               add_job ?fire
                 (''user@example.org'',
                  ''landsat 9 '' @ '' will pass over your location at ''
                    @ ''2030-01-01 10:00:00'' @ '' UTC'')
                 3600 empty_world)
         else (Inr ([], []), empty_world))"
    using interest_match_substring[of "''landsat 9 ''" example_now 30 "''user@example.org''"
      "''2030-01-01 10:00:00''" "([], [])" empty_world ?rise 1800000000 ?fire ?avail
      "[]" "[]"] p l s g v
    by blast
  have b: "pass_body example_now 30 ''user@example.org''
        (''landsat 9 '', ''2030-01-01 10:00:00'') ([], []) empty_world
      = (Inr ([] @ [(''landsat 9 '', strftime ?fire)], [] @ [(''landsat 9 '', strftime ?avail)]),
         add_job ?fire
           (''user@example.org'',
            ''landsat 9 '' @ '' will pass over your location at ''
              @ ''2030-01-01 10:00:00'' @ '' UTC'')
           3600 empty_world)"
    using b0 m by (simp only: if_True)
  have f: "fst ?h = ConfirmationPage ?sn ?da ''user@example.org''" by code_simp
  then have h: "?h = (ConfirmationPage ?sn ?da ''user@example.org'', snd ?h)"
    by (metis prod.collapse)
  from interest_match_substring[where e = example_env and req = example_request
      and ?w0.0 = empty_world and sn' = ?sn and da' = ?da and u = "''user@example.org''"
      and w' = "snd ?h"] h
  have c: "interest_match ''LANDSAT 8''" by fastforce
  from n a m b h c show ?thesis by (simp add: sf sa)
qed

text \<open>
  C4. \<open>get_next_pass_times\<close> emits, for each satellite of the source and in the
  order of the source, the first event of kind 0 of that satellite's event
  sequence, formatted to the second, and nothing for a satellite with no such
  event: at most one pass per satellite. The result is not sorted by time: in the
  worked request LANDSAT 8 (rise 10:00) precedes NOAA 19 (rise 02:00), TERRA has
  no rise and is dropped, and the later rise of LANDSAT 8 (21:40) is not emitted.
\<close>

theorem next_passes_first_rise_per_satellite:
  "get_next_pass_times e latitude longitude =
     List.map_filter
       (\<lambda>(name, evs). map_option (\<lambda>(ti, event). (name, strftime ti))
          (find (\<lambda>(ti, event). event = 0) evs))
       (tle_events e latitude longitude)
   \<and> length (get_next_pass_times e latitude longitude)
       \<le> length (tle_events e latitude longitude)"
proof -
  have eq: "get_next_pass_times e latitude longitude =
     List.map_filter
       (\<lambda>(name, evs). map_option (\<lambda>(ti, event). (name, strftime ti))
          (find (\<lambda>(ti, event). event = 0) evs))
       (tle_events e latitude longitude)"
    unfolding get_next_pass_times_def passes_loop_map_filter by simp
  have "length (get_next_pass_times e latitude longitude)
       \<le> length (tle_events e latitude longitude)"
    unfolding eq List.map_filter_def by simp
  with eq show ?thesis by blast
qed

theorem next_passes_first_rise_per_satellite_witness:
  "get_next_pass_times example_env 34 (- 118)
     = [(''LANDSAT 8'', ''2030-01-01 10:00:00''), (''NOAA 19'', ''2030-01-01 02:00:00'')]
   \<and> map fst (tle_events example_env 34 (- 118)) = [''LANDSAT 8'', ''TERRA'', ''NOAA 19'']
   \<and> length (get_next_pass_times example_env 34 (- 118))
       \<le> length (tle_events example_env 34 (- 118))"
proof -
  have a: "get_next_pass_times example_env 34 (- 118)
     = [(''LANDSAT 8'', ''2030-01-01 10:00:00''), (''NOAA 19'', ''2030-01-01 02:00:00'')]"
    by code_simp
  have b: "map fst (tle_events example_env 34 (- 118)) = [''LANDSAT 8'', ''TERRA'', ''NOAA 19'']"
    by code_simp
  from next_passes_first_rise_per_satellite[of example_env 34 "- 118"]
  have "length (get_next_pass_times example_env 34 (- 118))
       \<le> length (tle_events example_env 34 (- 118))" by blast
  with a b show ?thesis by blast
qed

text \<open>
  C10. A rise time is printed with \<open>%Y-%m-%d %H:%M:%S\<close> and parsed again before
  it is used: for every valid \<open>datetime\<close> the round trip gives the value cut to
  whole seconds, without its microseconds and its time zone. The notification
  time and the data availability of a pass are computed from that cut value: when
  the cut rise time minus the lead is after now, the pass is scheduled at that
  time (with the availability six hours after the cut rise time), and when it is
  not after now the pass is dropped.
\<close>

theorem timestamps_truncated_to_seconds:
  "valid_datetime t \<Longrightarrow>
     strptime (strftime t) = Inr (truncate_seconds t)
   \<and> strftime (truncate_seconds t) = strftime t
   \<and> (interest_match name \<and> timedelta_minutes nt = Inr lead
        \<and> datetime_sub (truncate_seconds t) lead = Inr fire
        \<and> datetime_gt fire now = Inr True
        \<and> datetime_add (truncate_seconds t) 21600000000 = Inr avail
      \<longrightarrow> pass_body now nt uid (name, strftime t) (sn, da) w
          = (Inr (sn @ [(name, strftime fire)], da @ [(name, strftime avail)]),
             add_job fire
               (uid, name @ '' will pass over your location at '' @ strftime t @ '' UTC'')
               3600 w))
   \<and> (timedelta_minutes nt = Inr lead
        \<and> datetime_sub (truncate_seconds t) lead = Inr fire
        \<and> datetime_gt fire now = Inr False
      \<longrightarrow> pass_body now nt uid (name, strftime t) (sn, da) w = (Inr (sn, da), w))"
proof -
  assume v: "valid_datetime t"
  have rt: "strptime (strftime t) = Inr (truncate_seconds t)"
    unfolding truncate_seconds_def using v by (rule strptime_strftime)
  have a: "interest_match name \<and> timedelta_minutes nt = Inr lead
        \<and> datetime_sub (truncate_seconds t) lead = Inr fire
        \<and> datetime_gt fire now = Inr True
        \<and> datetime_add (truncate_seconds t) 21600000000 = Inr avail
      \<longrightarrow> pass_body now nt uid (name, strftime t) (sn, da) w
          = (Inr (sn @ [(name, strftime fire)], da @ [(name, strftime avail)]),
             add_job fire
               (uid, name @ '' will pass over your location at '' @ strftime t @ '' UTC'')
               3600 w)"
    using pass_body_scheduled[OF _ rt] by blast
  have b: "timedelta_minutes nt = Inr lead
        \<and> datetime_sub (truncate_seconds t) lead = Inr fire
        \<and> datetime_gt fire now = Inr False
      \<longrightarrow> pass_body now nt uid (name, strftime t) (sn, da) w = (Inr (sn, da), w)"
    using pass_body_dropped[OF rt] by blast
  from rt strftime_truncate_seconds a b show ?thesis by blast
qed

theorem timestamps_truncated_to_seconds_witness:
  "valid_datetime (at_utc 10 0 0 600000)
   \<and> strftime (at_utc 10 0 0 600000) = ''2030-01-01 10:00:00''
   \<and> strptime (strftime (at_utc 10 0 0 600000))
       = Inr \<lparr>year = 2030, month = 1, day = 1, hour = 10, minute = 0, second = 0,
              microsecond = 0, tzinfo = None\<rparr>
   \<and> pass_body example_now 30 ''user@example.org''
        (''LANDSAT 8'', strftime (at_utc 10 0 0 600000)) ([], []) empty_world
       = (Inr ([(''LANDSAT 8'', ''2030-01-01 09:30:00'')],
               [(''LANDSAT 8'', ''2030-01-01 16:00:00'')]),
          add_job \<lparr>year = 2030, month = 1, day = 1, hour = 9, minute = 30, second = 0,
                    microsecond = 0, tzinfo = None\<rparr>
            (''user@example.org'',
             ''LANDSAT 8 will pass over your location at 2030-01-01 10:00:00 UTC'')
            3600 empty_world)
   \<and> total_microseconds (at_utc 0 30 0 600000) - 30 * 60000000
       > total_microseconds example_now
   \<and> pass_body example_now 30 ''user@example.org''
        (''LANDSAT 8'', strftime (at_utc 0 30 0 600000)) ([], []) empty_world
       = (Inr ([], []), empty_world)"
proof -
  let ?t = "at_utc 10 0 0 600000"
  let ?fire = "\<lparr>year = 2030, month = 1, day = 1, hour = 9, minute = 30, second = 0,
                    microsecond = 0, tzinfo = None\<rparr>"
  let ?avail = "\<lparr>year = 2030, month = 1, day = 1, hour = 16, minute = 0, second = 0,
                    microsecond = 0, tzinfo = None\<rparr>"
  have v: "valid_datetime ?t" by code_simp
  have s: "strftime ?t = ''2030-01-01 10:00:00''" by code_simp
  have tr: "truncate_seconds ?t = \<lparr>year = 2030, month = 1, day = 1, hour = 10, minute = 0,
      second = 0, microsecond = 0, tzinfo = None\<rparr>" by code_simp
  have im: "interest_match ''LANDSAT 8''" by code_simp
  have lead: "timedelta_minutes 30 = Inr 1800000000" by code_simp
  have fire: "datetime_sub (truncate_seconds ?t) 1800000000 = Inr ?fire" by code_simp
  have gt: "datetime_gt ?fire example_now = Inr True" by code_simp
  have avail: "datetime_add (truncate_seconds ?t) 21600000000 = Inr ?avail" by code_simp
  have sf: "strftime ?fire = ''2030-01-01 09:30:00''" by code_simp
  have sa: "strftime ?avail = ''2030-01-01 16:00:00''" by code_simp
  note th = timestamps_truncated_to_seconds[OF v, of "''LANDSAT 8''" 30 1800000000 ?fire
      example_now ?avail "''user@example.org''" "[]" "[]" empty_world]
  from th have rt: "strptime (strftime ?t) = Inr (truncate_seconds ?t)" by blast
  from th im lead fire gt avail
  have pb: "pass_body example_now 30 ''user@example.org'' (''LANDSAT 8'', strftime ?t)
        ([], []) empty_world
      = (Inr ([] @ [(''LANDSAT 8'', strftime ?fire)], [] @ [(''LANDSAT 8'', strftime ?avail)]),
         add_job ?fire
           (''user@example.org'',
            ''LANDSAT 8'' @ '' will pass over your location at '' @ strftime ?t @ '' UTC'')
           3600 empty_world)"
    by blast
  let ?t2 = "at_utc 0 30 0 600000"
  let ?fire2 = "\<lparr>year = 2030, month = 1, day = 1, hour = 0, minute = 0, second = 0,
                    microsecond = 0, tzinfo = None\<rparr>"
  have v2: "valid_datetime ?t2" by code_simp
  have fire2: "datetime_sub (truncate_seconds ?t2) 1800000000 = Inr ?fire2" by code_simp
  have gt2: "datetime_gt ?fire2 example_now = Inr False" by code_simp
  have lin: "total_microseconds ?t2 - 30 * 60000000 > total_microseconds example_now"
    by code_simp
  from timestamps_truncated_to_seconds[OF v2, of "''LANDSAT 8''" 30 1800000000 ?fire2
      example_now ?avail "''user@example.org''" "[]" "[]" empty_world] lead fire2 gt2
  have pb2: "pass_body example_now 30 ''user@example.org'' (''LANDSAT 8'', strftime ?t2)
        ([], []) empty_world = (Inr ([], []), empty_world)"
    by blast
  show ?thesis
    using v s rt tr pb pb2 lin by (simp add: sf sa s)
qed

text \<open>
  C1. Every job that a request adds to the scheduler has a run date after the
  reading of \<open>utcnow\<close>, and every notification time reported on the confirmation
  page parses to a \<open>datetime\<close> after it (\<open>notify_time > now\<close> of line 139, a
  comparison of the two field tuples). A pass whose notification time, rise time
  minus lead, is not after now is dropped: the loop body leaves the lists and the
  scheduler as they were, and raises nothing.
\<close>

theorem fire_time_after_reference:
  "(home e req w = (resp, w') \<longrightarrow>
      (\<exists>new. jobs w' = jobs w @ new
         \<and> (\<forall>j\<in>set new. datetime_gt (run_date j) (utcnow e) = Inr True))
    \<and> (\<forall>sn da u. resp = ConfirmationPage sn da u \<longrightarrow>
          (\<forall>(name, s)\<in>set sn. \<exists>fire. strptime s = Inr fire
              \<and> datetime_gt fire (utcnow e) = Inr True)))
   \<and> (strptime pts = Inr rise \<and> timedelta_minutes nt = Inr lead
        \<and> datetime_sub rise lead = Inr fire \<and> datetime_gt fire now = Inr False
      \<longrightarrow> pass_body now nt uid (name, pts) acc w1 = (Inr acc, w1))"
proof -
  have drop: "strptime pts = Inr rise \<and> timedelta_minutes nt = Inr lead
        \<and> datetime_sub rise lead = Inr fire \<and> datetime_gt fire now = Inr False
      \<longrightarrow> pass_body now nt uid (name, pts) acc w1 = (Inr acc, w1)"
    using pass_body_dropped by blast
  have main: "(\<exists>new. jobs w' = jobs w @ new
         \<and> (\<forall>j\<in>set new. datetime_gt (run_date j) (utcnow e) = Inr True))
    \<and> (\<forall>sn da u. resp = ConfirmationPage sn da u \<longrightarrow>
          (\<forall>(name, s)\<in>set sn. \<exists>fire. strptime s = Inr fire
              \<and> datetime_gt fire (utcnow e) = Inr True))"
    if h: "home e req w = (resp, w')"
    using h
  proof (cases rule: home_cases)
    case get
    then show ?thesis by simp
  next
    case (invalid err)
    then show ?thesis by simp
  next
    case (raised latitude longitude nt uid err)
    from schedule_passes_world[OF raised(3)] raised(4) show ?thesis
      by (auto simp: send_confirmation_email_def)
  next
    case (no_passes latitude longitude nt uid da)
    from schedule_passes_world[OF no_passes(3)] no_passes(4) show ?thesis
      by (auto simp: send_confirmation_email_def)
  next
    case (confirmed latitude longitude nt uid sn da w2)
    from schedule_passes_world[OF confirmed(3)] obtain new where
      new: "jobs w2 = jobs w @ new"
        "\<forall>j\<in>set new. datetime_gt (run_date j) (utcnow e) = Inr True"
      by (auto simp: send_confirmation_email_def)
    have jobs: "\<exists>new. jobs w' = jobs w @ new
         \<and> (\<forall>j\<in>set new. datetime_gt (run_date j) (utcnow e) = Inr True)"
      using new confirmed(6) by (auto simp: display_grid_on_map_def)
    from schedule_passes_lists[OF confirmed(3)] obtain ems where
      sn0: "sn = [] @ map (\<lambda>(name, fire, avail). (name, strftime fire)) ems"
      and ok0: "\<forall>(name, fire, avail)\<in>set ems. \<exists>pts rise.
            (name, pts) \<in> set (get_next_pass_times e latitude longitude)
            \<and> interest_match name \<and> strptime pts = Inr rise
            \<and> datetime_add rise (- (nt * 60000000)) = Inr fire
            \<and> strptime (strftime fire) = Inr fire
            \<and> datetime_gt fire (utcnow e) = Inr True
            \<and> datetime_add rise 21600000000 = Inr avail"
      by blast
    have sn: "sn = map (\<lambda>(name, fire, avail). (name, strftime fire)) ems"
      using sn0 by simp
    have ok: "\<forall>(name, fire, avail)\<in>set ems. strptime (strftime fire) = Inr fire
            \<and> datetime_gt fire (utcnow e) = Inr True"
      using ok0 by fast
    have "\<forall>(name, s)\<in>set sn. \<exists>fire. strptime s = Inr fire
              \<and> datetime_gt fire (utcnow e) = Inr True"
      unfolding sn using ok by fastforce
    with jobs confirmed(5) show ?thesis by simp
  qed
  from main drop show ?thesis by blast
qed

theorem fire_time_after_reference_witness:
  "fst (home example_env example_request empty_world)
     = ConfirmationPage [(''LANDSAT 8'', ''2030-01-01 09:30:00'')]
         [(''LANDSAT 8'', ''2030-01-01 16:00:00'')] ''user@example.org''
   \<and> (\<exists>fire. strptime ''2030-01-01 09:30:00'' = Inr fire
         \<and> datetime_gt fire (utcnow example_env) = Inr True)
   \<and> (\<exists>new. jobs (snd (home example_env example_request empty_world))
           = jobs empty_world @ new
         \<and> list_all (\<lambda>j. datetime_gt (run_date j) (utcnow example_env) = Inr True) new)
   \<and> strptime ''2030-01-01 00:20:00''
       = Inr \<lparr>year = 2030, month = 1, day = 1, hour = 0, minute = 20, second = 0,
              microsecond = 0, tzinfo = None\<rparr>
   \<and> datetime_sub \<lparr>year = 2030, month = 1, day = 1, hour = 0, minute = 20, second = 0,
                     microsecond = 0, tzinfo = None\<rparr> 1800000000
       = Inr \<lparr>year = 2029, month = 12, day = 31, hour = 23, minute = 50, second = 0,
              microsecond = 0, tzinfo = None\<rparr>
   \<and> pass_body example_now 30 ''user@example.org''
        (''LANDSAT 9'', ''2030-01-01 00:20:00'') ([], []) empty_world
       = (Inr ([], []), empty_world)"
proof -
  let ?h = "home example_env example_request empty_world"
  let ?sn = "[(''LANDSAT 8'', ''2030-01-01 09:30:00'')]"
  let ?da = "[(''LANDSAT 8'', ''2030-01-01 16:00:00'')]"
  let ?rise = "\<lparr>year = 2030, month = 1, day = 1, hour = 0, minute = 20, second = 0,
              microsecond = 0, tzinfo = None\<rparr>"
  let ?fire = "\<lparr>year = 2029, month = 12, day = 31, hour = 23, minute = 50, second = 0,
              microsecond = 0, tzinfo = None\<rparr>"
  have f: "fst ?h = ConfirmationPage ?sn ?da ''user@example.org''" by code_simp
  then have h: "?h = (ConfirmationPage ?sn ?da ''user@example.org'', snd ?h)"
    by (metis prod.collapse)
  have p: "strptime ''2030-01-01 00:20:00'' = Inr ?rise" by code_simp
  have l: "timedelta_minutes 30 = Inr 1800000000" by code_simp
  have s: "datetime_sub ?rise 1800000000 = Inr ?fire" by code_simp
  have g: "datetime_gt ?fire example_now = Inr False" by code_simp
  note th = fire_time_after_reference[of example_env example_request empty_world
      "ConfirmationPage ?sn ?da ''user@example.org''" "snd ?h"
      "''2030-01-01 00:20:00''" ?rise 30 1800000000 ?fire example_now
      "''user@example.org''" "''LANDSAT 9''" "([], [])" empty_world]
  from th h have a: "\<exists>fire. strptime ''2030-01-01 09:30:00'' = Inr fire
         \<and> datetime_gt fire (utcnow example_env) = Inr True"
    by fastforce
  from th h have b: "\<exists>new. jobs (snd ?h) = jobs empty_world @ new
         \<and> list_all (\<lambda>j. datetime_gt (run_date j) (utcnow example_env) = Inr True) new"
    unfolding list_all_iff by blast
  from th p l s g have c: "pass_body example_now 30 ''user@example.org''
        (''LANDSAT 9'', ''2030-01-01 00:20:00'') ([], []) empty_world
       = (Inr ([], []), empty_world)"
    by blast
  from f a b p s c show ?thesis by blast
qed

text \<open>
  C2. On the confirmation page the data availabilities stand in step with the
  scheduled notifications (same satellites, same order), and each one is the
  result of \<open>estimate_data_availability\<close> on the rise time string of a pass that
  \<open>get_next_pass_times\<close> returned for that satellite: it parses to the rise time,
  as parsed, plus \<open>timedelta(hours=6)\<close>, which is exactly 21600 seconds later.
\<close>

theorem data_available_six_hours_after_rise:
  "home e req w = (ConfirmationPage sn da u, w') \<Longrightarrow>
     map fst da = map fst sn
   \<and> (\<exists>latitude longitude nt.
        parse_form e req = Inr (latitude, longitude, nt, u)
      \<and> (\<forall>(name, das)\<in>set da. \<exists>pts rise avail.
            (name, pts) \<in> set (get_next_pass_times e latitude longitude)
          \<and> strptime pts = Inr rise
          \<and> datetime_add rise 21600000000 = Inr avail
          \<and> estimate_data_availability pts = Inr das
          \<and> strptime das = Inr avail
          \<and> total_microseconds avail = total_microseconds rise + 6 * 3600 * 1000000))"
proof -
  assume h: "home e req w = (ConfirmationPage sn da u, w')"
  then show ?thesis
  proof (cases rule: home_cases)
    case (confirmed latitude longitude nt uid sn' da' w2)
    then have eqs: "sn' = sn" "da' = da" "uid = u" by simp_all
    from schedule_passes_lists[OF confirmed(3)] obtain ems where
      sn0: "sn' = [] @ map (\<lambda>(name, fire, avail). (name, strftime fire)) ems"
      and da0: "da' = [] @ map (\<lambda>(name, fire, avail). (name, strftime avail)) ems"
      and ok0: "\<forall>(name, fire, avail)\<in>set ems. \<exists>pts rise.
            (name, pts) \<in> set (get_next_pass_times e latitude longitude)
            \<and> interest_match name \<and> strptime pts = Inr rise
            \<and> datetime_add rise (- (nt * 60000000)) = Inr fire
            \<and> strptime (strftime fire) = Inr fire
            \<and> datetime_gt fire (utcnow e) = Inr True
            \<and> datetime_add rise 21600000000 = Inr avail"
      by blast
    have sn: "sn = map (\<lambda>(name, fire, avail). (name, strftime fire)) ems"
      and da: "da = map (\<lambda>(name, fire, avail). (name, strftime avail)) ems"
      using sn0 da0 eqs by simp_all
    have names: "map fst da = map fst sn"
      unfolding sn da by (induction ems) auto
    have one: "\<exists>pts rise avail'.
            (name, pts) \<in> set (get_next_pass_times e latitude longitude)
          \<and> strptime pts = Inr rise
          \<and> datetime_add rise 21600000000 = Inr avail'
          \<and> estimate_data_availability pts = Inr (strftime avail)
          \<and> strptime (strftime avail) = Inr avail'
          \<and> total_microseconds avail' = total_microseconds rise + 6 * 3600 * 1000000"
      if em: "(name, fire, avail) \<in> set ems" for name fire avail
    proof -
      from ok0 em obtain pts rise where
        mem: "(name, pts) \<in> set (get_next_pass_times e latitude longitude)"
        and rise: "strptime pts = Inr rise"
        and av: "datetime_add rise 21600000000 = Inr avail"
        by fast
      have est: "estimate_data_availability pts = Inr (strftime avail)"
        by (simp add: estimate_data_availability_def rise timedelta_hours_6 av)
      have "datetime_add rise (21600 * 1000000) = Inr avail" using av by simp
      with rise have rt: "strptime (strftime avail) = Inr avail"
        by (rule strptime_strftime_moved)
      have tot: "total_microseconds avail = total_microseconds rise + 6 * 3600 * 1000000"
        using datetime_add_total[OF av] by simp
      from mem rise av est rt tot show ?thesis by blast
    qed
    have all: "\<forall>(name, das)\<in>set da. \<exists>pts rise avail.
            (name, pts) \<in> set (get_next_pass_times e latitude longitude)
          \<and> strptime pts = Inr rise
          \<and> datetime_add rise 21600000000 = Inr avail
          \<and> estimate_data_availability pts = Inr das
          \<and> strptime das = Inr avail
          \<and> total_microseconds avail = total_microseconds rise + 6 * 3600 * 1000000"
      unfolding da using one by fastforce
    from names all confirmed(2) eqs show ?thesis by blast
  qed simp_all
qed

theorem data_available_six_hours_after_rise_witness:
  "home example_env example_request empty_world
     = (ConfirmationPage [(''LANDSAT 8'', ''2030-01-01 09:30:00'')]
          [(''LANDSAT 8'', ''2030-01-01 16:00:00'')] ''user@example.org'',
        snd (home example_env example_request empty_world))
   \<and> get_next_pass_times example_env 34 (- 118)
       = [(''LANDSAT 8'', ''2030-01-01 10:00:00''), (''NOAA 19'', ''2030-01-01 02:00:00'')]
   \<and> estimate_data_availability ''2030-01-01 10:00:00'' = Inr ''2030-01-01 16:00:00''
   \<and> map fst [(''LANDSAT 8'', ''2030-01-01 16:00:00'')]
       = map fst [(''LANDSAT 8'', ''2030-01-01 09:30:00'')]
   \<and> (\<exists>latitude longitude nt pts rise avail.
         parse_form example_env example_request
           = Inr (latitude, longitude, nt, ''user@example.org'')
       \<and> (''LANDSAT 8'', pts) \<in> set (get_next_pass_times example_env latitude longitude)
       \<and> strptime pts = Inr rise
       \<and> datetime_add rise 21600000000 = Inr avail
       \<and> estimate_data_availability pts = Inr ''2030-01-01 16:00:00''
       \<and> strptime ''2030-01-01 16:00:00'' = Inr avail
       \<and> total_microseconds avail = total_microseconds rise + 6 * 3600 * 1000000)"
proof -
  let ?h = "home example_env example_request empty_world"
  let ?sn = "[(''LANDSAT 8'', ''2030-01-01 09:30:00'')]"
  let ?da = "[(''LANDSAT 8'', ''2030-01-01 16:00:00'')]"
  have f: "fst ?h = ConfirmationPage ?sn ?da ''user@example.org''" by code_simp
  then have h: "?h = (ConfirmationPage ?sn ?da ''user@example.org'', snd ?h)"
    by (metis prod.collapse)
  have g: "get_next_pass_times example_env 34 (- 118)
       = [(''LANDSAT 8'', ''2030-01-01 10:00:00''), (''NOAA 19'', ''2030-01-01 02:00:00'')]"
    by code_simp
  have e: "estimate_data_availability ''2030-01-01 10:00:00'' = Inr ''2030-01-01 16:00:00''"
    by code_simp
  from data_available_six_hours_after_rise[OF h]
  have th: "map fst ?da = map fst ?sn"
    and ex: "\<exists>latitude longitude nt.
        parse_form example_env example_request
          = Inr (latitude, longitude, nt, ''user@example.org'')
      \<and> (\<forall>(name, das)\<in>set ?da. \<exists>pts rise avail.
            (name, pts) \<in> set (get_next_pass_times example_env latitude longitude)
          \<and> strptime pts = Inr rise
          \<and> datetime_add rise 21600000000 = Inr avail
          \<and> estimate_data_availability pts = Inr das
          \<and> strptime das = Inr avail
          \<and> total_microseconds avail = total_microseconds rise + 6 * 3600 * 1000000)"
    by blast+
  from ex have ex': "\<exists>latitude longitude nt pts rise avail.
         parse_form example_env example_request
           = Inr (latitude, longitude, nt, ''user@example.org'')
       \<and> (''LANDSAT 8'', pts) \<in> set (get_next_pass_times example_env latitude longitude)
       \<and> strptime pts = Inr rise
       \<and> datetime_add rise 21600000000 = Inr avail
       \<and> estimate_data_availability pts = Inr ''2030-01-01 16:00:00''
       \<and> strptime ''2030-01-01 16:00:00'' = Inr avail
       \<and> total_microseconds avail = total_microseconds rise + 6 * 3600 * 1000000"
    by fastforce
  from h g e th ex' show ?thesis by blast
qed

text \<open>
  C7. When the form is read and the loop ends with no scheduled notification,
  the handler returns the page of line 148 (no future passes), which is not the
  confirmation page; a non-empty list gives the confirmation page. An empty
  result of \<open>get_next_pass_times\<close> is one such case. Whenever the handler
  returns the no-passes page, the scheduler holds the jobs it held before and no
  map was written.
\<close>

theorem no_qualifying_passes_outcome:
  "(req_method req = POST \<and> parse_form e req = Inr (latitude, longitude, nt, uid)
      \<and> schedule_passes (utcnow e) nt uid (get_next_pass_times e latitude longitude)
            ([], []) (send_confirmation_email uid w) = (Inr (sn, da), w2)
    \<longrightarrow> (sn = [] \<longrightarrow> home e req w = (ErrorPage NoFuturePasses, w2))
        \<and> (sn \<noteq> [] \<longrightarrow> fst (home e req w) = ConfirmationPage sn da uid))
   \<and> (req_method req = POST \<and> parse_form e req = Inr (latitude, longitude, nt, uid)
      \<and> get_next_pass_times e latitude longitude = []
    \<longrightarrow> home e req w = (ErrorPage NoFuturePasses, send_confirmation_email uid w))
   \<and> (home e req w = (ErrorPage NoFuturePasses, w')
    \<longrightarrow> jobs w' = jobs w \<and> rendered w' = rendered w)
   \<and> ErrorPage NoFuturePasses \<noteq> ConfirmationPage sn' da' u'"
proof -
  have a: "req_method req = POST \<and> parse_form e req = Inr (latitude, longitude, nt, uid)
      \<and> schedule_passes (utcnow e) nt uid (get_next_pass_times e latitude longitude)
            ([], []) (send_confirmation_email uid w) = (Inr (sn, da), w2)
    \<longrightarrow> (sn = [] \<longrightarrow> home e req w = (ErrorPage NoFuturePasses, w2))
        \<and> (sn \<noteq> [] \<longrightarrow> fst (home e req w) = ConfirmationPage sn da uid)"
    by (simp add: home_def home_post_def Let_def)
  have b: "req_method req = POST \<and> parse_form e req = Inr (latitude, longitude, nt, uid)
      \<and> get_next_pass_times e latitude longitude = []
    \<longrightarrow> home e req w = (ErrorPage NoFuturePasses, send_confirmation_email uid w)"
    by (simp add: home_def home_post_def Let_def)
  have c: "jobs w' = jobs w \<and> rendered w' = rendered w"
    if h: "home e req w = (ErrorPage NoFuturePasses, w')"
    using h
  proof (cases rule: home_cases)
    case (no_passes latitude longitude nt uid da)
    from schedule_passes_world[OF no_passes(3)] show ?thesis
      by (auto simp: send_confirmation_email_def)
  qed simp_all
  from a b c show ?thesis by blast
qed

theorem no_qualifying_passes_outcome_witness:
  "req_method request_long_lead = POST
   \<and> parse_form example_env request_long_lead = Inr (34, - 118, 700, ''user@example.org'')
   \<and> schedule_passes (utcnow example_env) 700 ''user@example.org''
        (get_next_pass_times example_env 34 (- 118)) ([], [])
        (send_confirmation_email ''user@example.org'' empty_world)
       = (Inr ([], []), send_confirmation_email ''user@example.org'' empty_world)
   \<and> home example_env request_long_lead empty_world
       = (ErrorPage NoFuturePasses, send_confirmation_email ''user@example.org'' empty_world)
   \<and> jobs (send_confirmation_email ''user@example.org'' empty_world) = jobs empty_world
   \<and> rendered (send_confirmation_email ''user@example.org'' empty_world)
       = rendered empty_world
   \<and> get_next_pass_times empty_sky_env 34 (- 118) = []
   \<and> home empty_sky_env example_request empty_world
       = (ErrorPage NoFuturePasses, send_confirmation_email ''user@example.org'' empty_world)"
proof -
  let ?w1 = "send_confirmation_email ''user@example.org'' empty_world"
  have m: "req_method request_long_lead = POST" by code_simp
  have p: "parse_form example_env request_long_lead
      = Inr (34, - 118, 700, ''user@example.org'')" by code_simp
  have s: "schedule_passes (utcnow example_env) 700 ''user@example.org''
        (get_next_pass_times example_env 34 (- 118)) ([], []) ?w1 = (Inr ([], []), ?w1)"
    by code_simp
  note th = no_qualifying_passes_outcome[of request_long_lead example_env 34 "- 118" 700
      "''user@example.org''" empty_world "[]" "[]" ?w1 ?w1]
  from th m p s have h: "home example_env request_long_lead empty_world
      = (ErrorPage NoFuturePasses, ?w1)" by blast
  with th have j: "jobs ?w1 = jobs empty_world \<and> rendered ?w1 = rendered empty_world"
    by blast
  have m2: "req_method example_request = POST" by code_simp
  have p2: "parse_form empty_sky_env example_request
      = Inr (34, - 118, 30, ''user@example.org'')" by code_simp
  have g2: "get_next_pass_times empty_sky_env 34 (- 118) = []" by code_simp
  from no_qualifying_passes_outcome[of example_request empty_sky_env 34 "- 118" 30
      "''user@example.org''" empty_world] m2 p2 g2
  have h2: "home empty_sky_env example_request empty_world
      = (ErrorPage NoFuturePasses, ?w1)" by blast
  from m p s h j g2 h2 show ?thesis by blast
qed

text \<open>
  C8, as the code has it. With a lead of -4191813479 minutes and rises of
  LANDSAT 8 at 10:00 and LANDSAT 9 at 12:00, the first pass is scheduled (for
  9999-12-31 23:59:00) and the second raises \<open>OverflowError\<close> on line 137: a
  notification was produced and submitted, and the handler returns the error
  page without writing a map.
\<close>

theorem job_scheduled_but_no_map:
  "parse_form two_landsat_env request_negative_lead
     = Inr (34, - 118, - 4191813479, ''user@example.org'')
   \<and> get_next_pass_times two_landsat_env 34 (- 118)
     = [(''LANDSAT 8'', ''2030-01-01 10:00:00''), (''LANDSAT 9'', ''2030-01-01 12:00:00'')]
   \<and> fst (home two_landsat_env request_negative_lead empty_world)
     = ErrorPage (ExceptionText OverflowError)
   \<and> map run_date (jobs (snd (home two_landsat_env request_negative_lead empty_world)))
     = [\<lparr>year = 9999, month = 12, day = 31, hour = 23, minute = 59, second = 0,
          microsecond = 0, tzinfo = None\<rparr>]
   \<and> map args (jobs (snd (home two_landsat_env request_negative_lead empty_world)))
     = [(''user@example.org'',
         ''LANDSAT 8 will pass over your location at 2030-01-01 10:00:00 UTC'')]
   \<and> rendered (snd (home two_landsat_env request_negative_lead empty_world)) = []"
proof -
  let ?h = "home two_landsat_env request_negative_lead empty_world"
  have a: "parse_form two_landsat_env request_negative_lead
     = Inr (34, - 118, - 4191813479, ''user@example.org'')" by code_simp
  have b: "get_next_pass_times two_landsat_env 34 (- 118)
     = [(''LANDSAT 8'', ''2030-01-01 10:00:00''), (''LANDSAT 9'', ''2030-01-01 12:00:00'')]"
    by code_simp
  have c: "fst ?h = ErrorPage (ExceptionText OverflowError)" by code_simp
  have d: "map run_date (jobs (snd ?h))
     = [\<lparr>year = 9999, month = 12, day = 31, hour = 23, minute = 59, second = 0,
          microsecond = 0, tzinfo = None\<rparr>]" by code_simp
  have e: "map args (jobs (snd ?h))
     = [(''user@example.org'',
         ''LANDSAT 8 will pass over your location at 2030-01-01 10:00:00 UTC'')]"
    by code_simp
  have f: "rendered (snd ?h) = []" by code_simp
  from a b c d e f show ?thesis by blast
qed

text \<open>
  C8, amended. \<open>display_grid_on_map\<close> is called exactly when the handler returns
  the confirmation page, that is when the loop over the passes ended without an
  exception and scheduled at least one notification: then one map is written,
  for the location of the request, and the scheduler has one new job for each
  reported notification. With the no-passes page, the page of a caught exception
  (a refused form, or an exception in the loop, also after a job was scheduled)
  or the home page, no map is written.
\<close>

theorem map_rendered_only_on_success:
  "home e req w = (resp, w') \<Longrightarrow>
     ((\<exists>sn da u. resp = ConfirmationPage sn da u) \<longleftrightarrow> rendered w' \<noteq> rendered w)
   \<and> (\<forall>sn da u. resp = ConfirmationPage sn da u \<longrightarrow>
         (\<exists>latitude longitude nt. parse_form e req = Inr (latitude, longitude, nt, u)
            \<and> rendered w' = rendered w @ [(latitude, longitude)])
         \<and> sn \<noteq> [] \<and> length (jobs w') = length (jobs w) + length sn)
   \<and> (resp = HomePage \<or> (\<exists>m. resp = ErrorPage m) \<longrightarrow> rendered w' = rendered w)"
proof -
  assume h: "home e req w = (resp, w')"
  then show ?thesis
  proof (cases rule: home_cases)
    case get
    then show ?thesis by simp
  next
    case (invalid err)
    then show ?thesis by simp
  next
    case (raised latitude longitude nt uid err)
    from schedule_passes_world[OF raised(3)] have "rendered w' = rendered w"
      by (auto simp: send_confirmation_email_def)
    with raised(4) show ?thesis by simp
  next
    case (no_passes latitude longitude nt uid da)
    from schedule_passes_world[OF no_passes(3)] have "rendered w' = rendered w"
      by (auto simp: send_confirmation_email_def)
    with no_passes(4) show ?thesis by simp
  next
    case (confirmed latitude longitude nt uid sn da w2)
    from schedule_passes_world[OF confirmed(3)] obtain new where
      new: "jobs w2 = jobs w @ new" "rendered w2 = rendered w" "length sn = length new"
      by (auto simp: send_confirmation_email_def)
    have r: "rendered w' = rendered w @ [(latitude, longitude)]"
      using new(2) confirmed(6) by (simp add: display_grid_on_map_def)
    have j: "length (jobs w') = length (jobs w) + length sn"
      using new(1,3) confirmed(6) by (simp add: display_grid_on_map_def)
    from r j confirmed(2,4,5) show ?thesis by auto
  qed
qed

theorem map_rendered_only_on_success_witness:
  "home example_env example_request empty_world
     = (ConfirmationPage [(''LANDSAT 8'', ''2030-01-01 09:30:00'')]
          [(''LANDSAT 8'', ''2030-01-01 16:00:00'')] ''user@example.org'',
        snd (home example_env example_request empty_world))
   \<and> rendered (snd (home example_env example_request empty_world)) = [(34, - 118)]
   \<and> rendered (snd (home example_env example_request empty_world)) \<noteq> rendered empty_world
   \<and> length (jobs (snd (home example_env example_request empty_world)))
       = length (jobs empty_world) + 1
   \<and> home example_env request_long_lead empty_world
       = (ErrorPage NoFuturePasses, send_confirmation_email ''user@example.org'' empty_world)
   \<and> rendered (send_confirmation_email ''user@example.org'' empty_world)
       = rendered empty_world
   \<and> home example_env request_bad_lead empty_world
       = (ErrorPage (ExceptionText ValueError), empty_world)
   \<and> fst (home two_landsat_env request_negative_lead empty_world)
       = ErrorPage (ExceptionText OverflowError)
   \<and> rendered (snd (home two_landsat_env request_negative_lead empty_world))
       = rendered empty_world"
proof -
  let ?h = "home example_env example_request empty_world"
  let ?sn = "[(''LANDSAT 8'', ''2030-01-01 09:30:00'')]"
  let ?da = "[(''LANDSAT 8'', ''2030-01-01 16:00:00'')]"
  let ?w1 = "send_confirmation_email ''user@example.org'' empty_world"
  have f: "fst ?h = ConfirmationPage ?sn ?da ''user@example.org''" by code_simp
  then have h: "?h = (ConfirmationPage ?sn ?da ''user@example.org'', snd ?h)"
    by (metis prod.collapse)
  have r: "rendered (snd ?h) = [(34, - 118)]" by code_simp
  from map_rendered_only_on_success[OF h]
  have a: "rendered (snd ?h) \<noteq> rendered empty_world"
    and b: "length (jobs (snd ?h)) = length (jobs empty_world) + length ?sn"
    by blast+
  have h2: "home example_env request_long_lead empty_world = (ErrorPage NoFuturePasses, ?w1)"
    by code_simp
  from map_rendered_only_on_success[OF h2]
  have c: "rendered ?w1 = rendered empty_world" by blast
  have h3: "home example_env request_bad_lead empty_world
      = (ErrorPage (ExceptionText ValueError), empty_world)" by code_simp
  let ?g = "home two_landsat_env request_negative_lead empty_world"
  have f4: "fst ?g = ErrorPage (ExceptionText OverflowError)" by code_simp
  then have h4: "?g = (ErrorPage (ExceptionText OverflowError), snd ?g)"
    by (metis prod.collapse)
  from map_rendered_only_on_success[OF h4]
  have d: "rendered (snd ?g) = rendered empty_world" by blast
  from h r a b h2 c h3 f4 d show ?thesis by simp
qed

text \<open>
  C6, as the code has it. A latitude of 100 is read by \<open>float()\<close> and handed on:
  nothing compares a latitude or a longitude with a range, the notification is
  scheduled and the confirmation page is returned.
\<close>

theorem out_of_range_latitude_accepted:
  "form request_latitude_100 ''latitude'' = Some ''100''
   \<and> py_float example_env ''100'' = Inr 100
   \<and> \<not> (100 :: int) \<le> 90
   \<and> parse_form example_env request_latitude_100
       = Inr (100, - 118, 30, ''user@example.org'')
   \<and> fst (home example_env request_latitude_100 empty_world)
       = ConfirmationPage [(''LANDSAT 8'', ''2030-01-01 09:30:00'')]
           [(''LANDSAT 8'', ''2030-01-01 16:00:00'')] ''user@example.org''
   \<and> length (jobs (snd (home example_env request_latitude_100 empty_world))) = 1
   \<and> rendered (snd (home example_env request_latitude_100 empty_world)) = [(100, - 118)]"
proof -
  have a: "form request_latitude_100 ''latitude'' = Some ''100''" by code_simp
  have b: "py_float example_env ''100'' = Inr 100" by code_simp
  have c: "parse_form example_env request_latitude_100
       = Inr (100, - 118, 30, ''user@example.org'')" by code_simp
  have d: "fst (home example_env request_latitude_100 empty_world)
       = ConfirmationPage [(''LANDSAT 8'', ''2030-01-01 09:30:00'')]
           [(''LANDSAT 8'', ''2030-01-01 16:00:00'')] ''user@example.org''" by code_simp
  have e: "length (jobs (snd (home example_env request_latitude_100 empty_world))) = 1"
    by code_simp
  have f: "rendered (snd (home example_env request_latitude_100 empty_world))
      = [(100, - 118)]" by code_simp
  from a b c d e f show ?thesis by simp
qed

text \<open>
  C6, amended. A POST request in which one of the four form fields is missing,
  or in which \<open>float()\<close> refuses the latitude or the longitude, or \<open>int()\<close> the
  lead, gets the error page with the text of that exception, and the world is
  left as it was: no job is scheduled, no message is sent and no map is written.
\<close>

theorem invalid_form_aborts_before_scheduling:
  "req_method req = POST \<Longrightarrow>
     (parse_form e req = Inl err \<longrightarrow> home e req w = (ErrorPage (ExceptionText err), w))
   \<and> (form req ''latitude'' = None \<or> form req ''longitude'' = None
        \<or> form req ''notification_time'' = None \<or> form req ''user_id'' = None
      \<longrightarrow> (\<exists>err. parse_form e req = Inl err))
   \<and> (form req ''latitude'' = Some lat_str \<and> py_float e lat_str = Inl err
      \<longrightarrow> parse_form e req = Inl err)
   \<and> (form req ''latitude'' = Some lat_str \<and> py_float e lat_str = Inr latitude
        \<and> form req ''longitude'' = Some lon_str \<and> py_float e lon_str = Inl err
      \<longrightarrow> parse_form e req = Inl err)
   \<and> (form req ''latitude'' = Some lat_str \<and> py_float e lat_str = Inr latitude
        \<and> form req ''longitude'' = Some lon_str \<and> py_float e lon_str = Inr longitude
        \<and> form req ''notification_time'' = Some nt_str \<and> py_int e nt_str = Inl err
      \<longrightarrow> parse_form e req = Inl err)"
proof -
  assume post: "req_method req = POST"
  have a: "parse_form e req = Inl err \<longrightarrow> home e req w = (ErrorPage (ExceptionText err), w)"
    using post by (simp add: home_def home_post_def)
  have b: "form req ''latitude'' = None \<or> form req ''longitude'' = None
        \<or> form req ''notification_time'' = None \<or> form req ''user_id'' = None
      \<longrightarrow> (\<exists>err. parse_form e req = Inl err)"
    by (auto simp: parse_form_def form_get_def split: option.splits sum.splits)
  have c: "form req ''latitude'' = Some lat_str \<and> py_float e lat_str = Inl err
      \<longrightarrow> parse_form e req = Inl err"
    by (simp add: parse_form_def form_get_def)
  have d: "form req ''latitude'' = Some lat_str \<and> py_float e lat_str = Inr latitude
        \<and> form req ''longitude'' = Some lon_str \<and> py_float e lon_str = Inl err
      \<longrightarrow> parse_form e req = Inl err"
    by (simp add: parse_form_def form_get_def)
  have f: "form req ''latitude'' = Some lat_str \<and> py_float e lat_str = Inr latitude
        \<and> form req ''longitude'' = Some lon_str \<and> py_float e lon_str = Inr longitude
        \<and> form req ''notification_time'' = Some nt_str \<and> py_int e nt_str = Inl err
      \<longrightarrow> parse_form e req = Inl err"
    by (simp add: parse_form_def form_get_def)
  from a b c d f show ?thesis by blast
qed

theorem invalid_form_aborts_before_scheduling_witness:
  "req_method request_bad_lead = POST
   \<and> form request_bad_lead ''latitude'' = Some ''34''
   \<and> py_float example_env ''34'' = Inr 34
   \<and> form request_bad_lead ''longitude'' = Some ''-118''
   \<and> py_float example_env ''-118'' = Inr (- 118)
   \<and> form request_bad_lead ''notification_time'' = Some ''soon''
   \<and> py_int example_env ''soon'' = Inl ValueError
   \<and> parse_form example_env request_bad_lead = Inl ValueError
   \<and> home example_env request_bad_lead empty_world
       = (ErrorPage (ExceptionText ValueError), empty_world)"
proof -
  have m: "req_method request_bad_lead = POST" by code_simp
  have a: "form request_bad_lead ''latitude'' = Some ''34''" by code_simp
  have b: "py_float example_env ''34'' = Inr 34" by code_simp
  have c: "form request_bad_lead ''longitude'' = Some ''-118''" by code_simp
  have d: "py_float example_env ''-118'' = Inr (- 118)" by code_simp
  have f: "form request_bad_lead ''notification_time'' = Some ''soon''" by code_simp
  have g: "py_int example_env ''soon'' = Inl ValueError" by code_simp
  note th = invalid_form_aborts_before_scheduling[OF m, of example_env ValueError
      empty_world "''34''" 34 "''-118''" "- 118" "''soon''"]
  from th a b c d f g have p: "parse_form example_env request_bad_lead = Inl ValueError"
    by blast
  with th have h: "home example_env request_bad_lead empty_world
       = (ErrorPage (ExceptionText ValueError), empty_world)" by blast
  from m a b c d f g p h show ?thesis by blast
qed

text \<open>
  C5. \<open>schedule_notification\<close> adds one pending job with the parsed time as run
  date and a grace of 3600 seconds. In the dispatch loop modelled from the spec,
  let \<open>t\<close> be the first evaluation time that is not before the run date \<open>T\<close> (the
  earlier ones are before it). If \<open>t\<close> is at most 3600 seconds after \<open>T\<close>, the
  boundary included, the job ends \<open>Fired\<close> and the run sends exactly one more
  notification than the same run without the job, whatever evaluations follow.
  If \<open>t\<close> is more than 3600 seconds after \<open>T\<close>, the job ends \<open>Expired\<close> and the
  run sends the same notifications as without it.
\<close>

theorem grace_window_fire_or_expire:
  "strptime s = Inr T \<Longrightarrow>
   \<forall>p\<in>set earlier. total_microseconds p < total_microseconds T \<Longrightarrow>
     schedule_notification s uid msg w
       = (Inr (), add_job T (uid, msg) 3600 w)
   \<and> jobs (add_job T (uid, msg) 3600 w)
       = jobs w @ [\<lparr>job_id = length (jobs w), run_date = T, args = (uid, msg),
                     misfire_grace_time = 3600, state = Pending\<rparr>]
   \<and> (0 \<le> total_microseconds t - total_microseconds T
        \<and> total_microseconds t - total_microseconds T \<le> 3600 * 1000000 \<longrightarrow>
          jobs (run_dispatcher (earlier @ t # later) (add_job T (uid, msg) 3600 w))
            = jobs (run_dispatcher (earlier @ t # later) w)
              @ [\<lparr>job_id = length (jobs w), run_date = T, args = (uid, msg),
                  misfire_grace_time = 3600, state = Fired\<rparr>]
        \<and> mset (outbox (run_dispatcher (earlier @ t # later) (add_job T (uid, msg) 3600 w)))
            = mset (outbox (run_dispatcher (earlier @ t # later) w))
              + {#notification_email uid msg#})
   \<and> (total_microseconds t - total_microseconds T > 3600 * 1000000 \<longrightarrow>
          jobs (run_dispatcher (earlier @ t # later) (add_job T (uid, msg) 3600 w))
            = jobs (run_dispatcher (earlier @ t # later) w)
              @ [\<lparr>job_id = length (jobs w), run_date = T, args = (uid, msg),
                  misfire_grace_time = 3600, state = Expired\<rparr>]
        \<and> mset (outbox (run_dispatcher (earlier @ t # later) (add_job T (uid, msg) 3600 w)))
            = mset (outbox (run_dispatcher (earlier @ t # later) w)))"
proof -
  assume p: "strptime s = Inr T"
    and early: "\<forall>p\<in>set earlier. total_microseconds p < total_microseconds T"
  let ?j = "\<lparr>job_id = length (jobs w), run_date = T, args = (uid, msg),
             misfire_grace_time = 3600, state = Pending\<rparr>"
  let ?w1 = "add_job T (uid, msg) 3600 w"
  have a: "schedule_notification s uid msg w = (Inr (), ?w1)"
    using p by (rule schedule_notification_parsed)
  have b: "jobs ?w1 = jobs w @ [?j]" by (simp add: add_job_simps)
  have o: "mset (outbox ?w1) = mset (outbox w)" by (simp add: add_job_simps)
  from scheduled_job_life[OF early b o, of t later] a b show ?thesis by simp
qed

theorem grace_window_fire_or_expire_witness:
  "strptime ''2030-01-01 09:30:00'' = Inr (at_naive 9 30 0 0)
   \<and> total_microseconds (at_naive 9 0 0 0) < total_microseconds (at_naive 9 30 0 0)
   \<and> total_microseconds (at_naive 10 30 0 0) - total_microseconds (at_naive 9 30 0 0)
       = 3600 * 1000000
   \<and> jobs (run_dispatcher [at_naive 9 0 0 0, at_naive 10 30 0 0, at_naive 11 0 0 0]
            (add_job (at_naive 9 30 0 0) (''user@example.org'', ''pass'') 3600 empty_world))
       = [\<lparr>job_id = 0, run_date = at_naive 9 30 0 0, args = (''user@example.org'', ''pass''),
            misfire_grace_time = 3600, state = Fired\<rparr>]
   \<and> outbox (run_dispatcher [at_naive 9 0 0 0, at_naive 10 30 0 0, at_naive 11 0 0 0]
            (add_job (at_naive 9 30 0 0) (''user@example.org'', ''pass'') 3600 empty_world))
       = [notification_email ''user@example.org'' ''pass'']
   \<and> total_microseconds (at_naive 10 30 0 1) - total_microseconds (at_naive 9 30 0 0)
       = 3600 * 1000000 + 1
   \<and> jobs (run_dispatcher [at_naive 9 0 0 0, at_naive 10 30 0 1, at_naive 11 0 0 0]
            (add_job (at_naive 9 30 0 0) (''user@example.org'', ''pass'') 3600 empty_world))
       = [\<lparr>job_id = 0, run_date = at_naive 9 30 0 0, args = (''user@example.org'', ''pass''),
            misfire_grace_time = 3600, state = Expired\<rparr>]
   \<and> outbox (run_dispatcher [at_naive 9 0 0 0, at_naive 10 30 0 1, at_naive 11 0 0 0]
            (add_job (at_naive 9 30 0 0) (''user@example.org'', ''pass'') 3600 empty_world))
       = []"
proof -
  let ?T = "at_naive 9 30 0 0"
  let ?w1 = "add_job ?T (''user@example.org'', ''pass'') 3600 empty_world"
  let ?fire = "[at_naive 9 0 0 0, at_naive 10 30 0 0, at_naive 11 0 0 0]"
  let ?late = "[at_naive 9 0 0 0, at_naive 10 30 0 1, at_naive 11 0 0 0]"
  have p: "strptime ''2030-01-01 09:30:00'' = Inr ?T" by code_simp
  have e0: "total_microseconds (at_naive 9 0 0 0) < total_microseconds ?T" by code_simp
  then have e: "\<forall>p\<in>set [at_naive 9 0 0 0]. total_microseconds p < total_microseconds ?T"
    by simp
  have l1: "total_microseconds (at_naive 10 30 0 0) - total_microseconds ?T = 3600 * 1000000"
    by code_simp
  have l2: "total_microseconds (at_naive 10 30 0 1) - total_microseconds ?T
      = 3600 * 1000000 + 1" by code_simp
  have z1: "jobs (run_dispatcher ?fire empty_world) = []" by code_simp
  have z2: "jobs (run_dispatcher ?late empty_world) = []" by code_simp
  have l0: "jobs empty_world = []" by code_simp
  have o1: "outbox (run_dispatcher ?fire ?w1) = [notification_email ''user@example.org'' ''pass'']"
    by code_simp
  have o2: "outbox (run_dispatcher ?late ?w1) = []" by code_simp
  from grace_window_fire_or_expire[OF p e, where t = "at_naive 10 30 0 0"
      and later = "[at_naive 11 0 0 0]" and uid = "''user@example.org''"
      and msg = "''pass''" and w = empty_world] l1
  have j1: "jobs (run_dispatcher ?fire ?w1)
       = [\<lparr>job_id = 0, run_date = ?T, args = (''user@example.org'', ''pass''),
            misfire_grace_time = 3600, state = Fired\<rparr>]"
    by (simp add: z1 l0)
  from grace_window_fire_or_expire[OF p e, where t = "at_naive 10 30 0 1"
      and later = "[at_naive 11 0 0 0]" and uid = "''user@example.org''"
      and msg = "''pass''" and w = empty_world] l2
  have j2: "jobs (run_dispatcher ?late ?w1)
       = [\<lparr>job_id = 0, run_date = ?T, args = (''user@example.org'', ''pass''),
            misfire_grace_time = 3600, state = Expired\<rparr>]"
    by (simp add: z2 l0)
  from p e0 l1 j1 o1 l2 j2 o2 show ?thesis by blast
qed

text \<open>
  C9. Two calls of \<open>schedule_notification\<close> with the same arguments add two jobs
  that differ in their identifier only (nothing is deduplicated), and the
  identifiers of the job set stay distinct. In the dispatch loop modelled from
  the spec, when the first evaluation that is not before the run date is within
  the grace of 3600 seconds, both jobs end \<open>Fired\<close> and the run sends two more
  notifications than the same run without them.
\<close>

theorem schedule_twice_two_jobs:
  "strptime s = Inr T \<Longrightarrow>
     schedule_notification s uid msg w = (Inr (), add_job T (uid, msg) 3600 w)
   \<and> schedule_notification s uid msg (add_job T (uid, msg) 3600 w)
       = (Inr (), add_job T (uid, msg) 3600 (add_job T (uid, msg) 3600 w))
   \<and> jobs (add_job T (uid, msg) 3600 (add_job T (uid, msg) 3600 w))
       = jobs w @ [\<lparr>job_id = length (jobs w), run_date = T, args = (uid, msg),
                     misfire_grace_time = 3600, state = Pending\<rparr>,
                   \<lparr>job_id = Suc (length (jobs w)), run_date = T, args = (uid, msg),
                     misfire_grace_time = 3600, state = Pending\<rparr>]
   \<and> length (jobs w) \<noteq> Suc (length (jobs w))
   \<and> ((\<forall>j\<in>set (jobs w). job_id j < length (jobs w)) \<and> distinct (map job_id (jobs w))
        \<longrightarrow> distinct (map job_id
              (jobs (add_job T (uid, msg) 3600 (add_job T (uid, msg) 3600 w)))))
   \<and> ((\<forall>p\<in>set earlier. total_microseconds p < total_microseconds T)
        \<and> 0 \<le> total_microseconds t - total_microseconds T
        \<and> total_microseconds t - total_microseconds T \<le> 3600 * 1000000 \<longrightarrow>
          jobs (run_dispatcher (earlier @ t # later)
                  (add_job T (uid, msg) 3600 (add_job T (uid, msg) 3600 w)))
            = jobs (run_dispatcher (earlier @ t # later) w)
              @ [\<lparr>job_id = length (jobs w), run_date = T, args = (uid, msg),
                  misfire_grace_time = 3600, state = Fired\<rparr>,
                 \<lparr>job_id = Suc (length (jobs w)), run_date = T, args = (uid, msg),
                  misfire_grace_time = 3600, state = Fired\<rparr>]
        \<and> mset (outbox (run_dispatcher (earlier @ t # later)
                  (add_job T (uid, msg) 3600 (add_job T (uid, msg) 3600 w))))
            = mset (outbox (run_dispatcher (earlier @ t # later) w))
              + {#notification_email uid msg, notification_email uid msg#})"
proof -
  assume p: "strptime s = Inr T"
  let ?w1 = "add_job T (uid, msg) 3600 w"
  let ?w2 = "add_job T (uid, msg) 3600 ?w1"
  let ?j1 = "\<lparr>job_id = length (jobs w), run_date = T, args = (uid, msg),
              misfire_grace_time = 3600, state = Pending\<rparr>"
  let ?j2 = "\<lparr>job_id = Suc (length (jobs w)), run_date = T, args = (uid, msg),
              misfire_grace_time = 3600, state = Pending\<rparr>"
  let ?ticks = "earlier @ t # later"
  have a: "schedule_notification s uid msg w = (Inr (), ?w1)"
    using p by (rule schedule_notification_parsed)
  have b: "schedule_notification s uid msg ?w1 = (Inr (), ?w2)"
    using p by (rule schedule_notification_parsed)
  have j1: "jobs ?w1 = jobs w @ [?j1]" by (simp add: add_job_simps)
  have j2: "jobs ?w2 = jobs ?w1 @ [?j2]" by (simp add: add_job_simps)
  have c: "jobs ?w2 = jobs w @ [?j1, ?j2]" using j1 j2 by simp
  have d: "distinct (map job_id (jobs ?w2))"
    if "\<forall>j\<in>set (jobs w). job_id j < length (jobs w)" "distinct (map job_id (jobs w))"
    unfolding c using that by fastforce
  have o1: "mset (outbox ?w1) = mset (outbox w)" by (simp add: add_job_simps)
  have o2: "mset (outbox ?w2) = mset (outbox ?w1)" by (simp add: add_job_simps)
  have f: "jobs (run_dispatcher ?ticks ?w2)
            = jobs (run_dispatcher ?ticks w) @ [?j1\<lparr>state := Fired\<rparr>, ?j2\<lparr>state := Fired\<rparr>]
        \<and> mset (outbox (run_dispatcher ?ticks ?w2))
            = mset (outbox (run_dispatcher ?ticks w))
              + {#notification_email uid msg, notification_email uid msg#}"
    if early: "\<forall>p\<in>set earlier. total_microseconds p < total_microseconds T"
      and late: "0 \<le> total_microseconds t - total_microseconds T"
        "total_microseconds t - total_microseconds T \<le> 3600 * 1000000"
  proof -
    from scheduled_job_life[OF early j1 o1, of t later] late
    have s1: "jobs (run_dispatcher ?ticks ?w1)
          = jobs (run_dispatcher ?ticks w) @ [?j1\<lparr>state := Fired\<rparr>]"
      "mset (outbox (run_dispatcher ?ticks ?w1))
          = mset (outbox (run_dispatcher ?ticks w)) + {#notification_email uid msg#}"
      by simp_all
    from scheduled_job_life[OF early j2 o2, of t later] late
    have s2: "jobs (run_dispatcher ?ticks ?w2)
          = jobs (run_dispatcher ?ticks ?w1) @ [?j2\<lparr>state := Fired\<rparr>]"
      "mset (outbox (run_dispatcher ?ticks ?w2))
          = mset (outbox (run_dispatcher ?ticks ?w1)) + {#notification_email uid msg#}"
      by simp_all
    from s1 s2 show ?thesis by simp
  qed
  from a b c d f show ?thesis by simp
qed

theorem schedule_twice_two_jobs_witness:
  "strptime ''2030-01-01 09:30:00'' = Inr (at_naive 9 30 0 0)
   \<and> map job_id (jobs (add_job (at_naive 9 30 0 0) (''user@example.org'', ''pass'') 3600
        (add_job (at_naive 9 30 0 0) (''user@example.org'', ''pass'') 3600 empty_world)))
       = [0, 1]
   \<and> distinct (map job_id (jobs (add_job (at_naive 9 30 0 0)
        (''user@example.org'', ''pass'') 3600
        (add_job (at_naive 9 30 0 0) (''user@example.org'', ''pass'') 3600 empty_world))))
   \<and> total_microseconds (at_naive 9 0 0 0) < total_microseconds (at_naive 9 30 0 0)
   \<and> total_microseconds (at_naive 9 45 0 0) - total_microseconds (at_naive 9 30 0 0)
       = 900 * 1000000
   \<and> map state (jobs (run_dispatcher [at_naive 9 0 0 0, at_naive 9 45 0 0, at_naive 11 0 0 0]
        (add_job (at_naive 9 30 0 0) (''user@example.org'', ''pass'') 3600
          (add_job (at_naive 9 30 0 0) (''user@example.org'', ''pass'') 3600 empty_world))))
       = [Fired, Fired]
   \<and> outbox (run_dispatcher [at_naive 9 0 0 0, at_naive 9 45 0 0, at_naive 11 0 0 0]
        (add_job (at_naive 9 30 0 0) (''user@example.org'', ''pass'') 3600
          (add_job (at_naive 9 30 0 0) (''user@example.org'', ''pass'') 3600 empty_world)))
       = [notification_email ''user@example.org'' ''pass'',
          notification_email ''user@example.org'' ''pass'']"
proof -
  let ?T = "at_naive 9 30 0 0"
  let ?w2 = "add_job ?T (''user@example.org'', ''pass'') 3600
        (add_job ?T (''user@example.org'', ''pass'') 3600 empty_world)"
  let ?ticks = "[at_naive 9 0 0 0, at_naive 9 45 0 0, at_naive 11 0 0 0]"
  have p: "strptime ''2030-01-01 09:30:00'' = Inr ?T" by code_simp
  have e0: "total_microseconds (at_naive 9 0 0 0) < total_microseconds ?T" by code_simp
  then have e: "\<forall>p\<in>set [at_naive 9 0 0 0]. total_microseconds p < total_microseconds ?T"
    by simp
  have l: "total_microseconds (at_naive 9 45 0 0) - total_microseconds ?T = 900 * 1000000"
    by code_simp
  have z: "jobs (run_dispatcher ?ticks empty_world) = []" by code_simp
  have l0: "jobs empty_world = []" by code_simp
  have o: "outbox (run_dispatcher ?ticks ?w2)
      = [notification_email ''user@example.org'' ''pass'',
         notification_email ''user@example.org'' ''pass'']" by code_simp
  note th = schedule_twice_two_jobs[OF p, where uid = "''user@example.org''"
      and msg = "''pass''" and w = empty_world and earlier = "[at_naive 9 0 0 0]"
      and t = "at_naive 9 45 0 0" and later = "[at_naive 11 0 0 0]"]
  from th have c: "jobs ?w2 = jobs empty_world
      @ [\<lparr>job_id = length (jobs empty_world), run_date = ?T,
          args = (''user@example.org'', ''pass''), misfire_grace_time = 3600,
          state = Pending\<rparr>,
         \<lparr>job_id = Suc (length (jobs empty_world)), run_date = ?T,
          args = (''user@example.org'', ''pass''), misfire_grace_time = 3600,
          state = Pending\<rparr>]"
    by blast
  have ids: "map job_id (jobs ?w2) = [0, 1]" unfolding c by (simp add: l0)
  from th e l have r: "jobs (run_dispatcher ?ticks ?w2)
      = jobs (run_dispatcher ?ticks empty_world)
        @ [\<lparr>job_id = length (jobs empty_world), run_date = ?T,
            args = (''user@example.org'', ''pass''), misfire_grace_time = 3600,
            state = Fired\<rparr>,
           \<lparr>job_id = Suc (length (jobs empty_world)), run_date = ?T,
            args = (''user@example.org'', ''pass''), misfire_grace_time = 3600,
            state = Fired\<rparr>]"
    by simp
  have st: "map state (jobs (run_dispatcher ?ticks ?w2)) = [Fired, Fired]"
    unfolding r by (simp add: z)
  from th have di: "distinct (map job_id (jobs ?w2))" by (simp add: l0)
  from p ids di e0 l st o show ?thesis by blast
qed

end
